theory Spec2Isabelle
  imports Complex_Main "HOL-Library.Multiset"
begin

section \<open>Undefined behaviour as error values\<close>

text \<open>
  The evaluator is C++ code without a single check: an index past the end of a
  \<^verbatim>\<open>TVector\<close>, a shift by a count outside the width of \<^verbatim>\<open>int\<close> and a division by
  zero are undefined behaviour. Each of them is a value of \<open>error\<close> here, and every
  function of the evaluator returns \<open>error + result\<close>, so that "the code is defined on
  this input" is the statement that the model returns \<open>Inr\<close>.
\<close>

datatype error = IndexOutOfRange | ShiftOutOfRange | DivisionByZero

definition bindE :: "error + 'a \<Rightarrow> ('a \<Rightarrow> error + 'b) \<Rightarrow> error + 'b" where
  "bindE m f = (case m of Inl e \<Rightarrow> Inl e | Inr v \<Rightarrow> f v)"

text \<open>\<^verbatim>\<open>v[i]\<close> on a \<^verbatim>\<open>TVector\<close>.\<close>

definition vec_at :: "'a list \<Rightarrow> nat \<Rightarrow> error + 'a" where
  "vec_at xs i = (if i < length xs then Inr (xs ! i) else Inl IndexOutOfRange)"

text \<open>\<^verbatim>\<open>a / b\<close> on \<^verbatim>\<open>double\<close>.\<close>

definition fdiv :: "'a::{zero,inverse} \<Rightarrow> 'a \<Rightarrow> error + 'a" where
  "fdiv a b = (if b = 0 then Inl DivisionByZero else Inr (a / b))"

text \<open>\<^verbatim>\<open>1 << d\<close> on \<^verbatim>\<open>int\<close>, stored in a \<^verbatim>\<open>ui32\<close>.\<close>

definition shl1 :: "int \<Rightarrow> error + nat" where
  "shl1 d = (if 0 \<le> d \<and> d < 32 then Inr (2 ^ nat d) else Inl ShiftOutOfRange)"

text \<open>A \<^verbatim>\<open>for\<close> loop over the elements of a list, in order, threading the state
  through the body and stopping at the first error.\<close>

fun loopE :: "('b \<Rightarrow> 's \<Rightarrow> error + 's) \<Rightarrow> 'b list \<Rightarrow> 's \<Rightarrow> error + 's" where
  "loopE body [] s = Inr s"
| "loopE body (x # xs) s = (case body x s of Inl e \<Rightarrow> Inl e | Inr s' \<Rightarrow> loopE body xs s')"

text \<open>\<^verbatim>\<open>ExecRange\<close> over independent tasks, each producing one slot of the result.\<close>

fun mapE :: "('b \<Rightarrow> error + 'c) \<Rightarrow> 'b list \<Rightarrow> error + 'c list" where
  "mapE f [] = Inr []"
| "mapE f (x # xs) =
     (case f x of Inl e \<Rightarrow> Inl e
      | Inr y \<Rightarrow> (case mapE f xs of Inl e \<Rightarrow> Inl e | Inr ys \<Rightarrow> Inr (y # ys)))"

section \<open>Data model\<close>

text \<open>
  \<^verbatim>\<open>double\<close> is the type variable \<open>'a\<close> with the operations the code uses and no law
  assumed about them, so a theorem at type \<open>'a\<close> holds in every arithmetic,
  rounding included; a theorem that needs a law names it in the sort of \<open>'a\<close>.
  Indices and counts (\<^verbatim>\<open>ui32\<close>) are natural numbers: no loop of the evaluator counts
  past the size of a vector.
\<close>

text \<open>Modelled from the spec: the declaration of \<^verbatim>\<open>TTreeStatistics\<close> is missing from the
  sources. The fields are the tables of the specification's data model (section 3)
  and \<^verbatim>\<open>LeafCount\<close>, which \<open>UpdateLeavesDerivativesForTree\<close> reads.\<close>

record 'a TTreeStatistics =
  LeafCount :: nat
  LeafIndices :: "nat list"
  LeavesDocId :: "nat list list"
  LeafValues :: "'a list list"
  FormulaNumeratorMultiplier :: "'a list list"
  FormulaNumeratorAdding :: "'a list list"
  FormulaDenominators :: "'a list list"

text \<open>Modelled from the spec: the declarations of \<^verbatim>\<open>EUpdateType\<close> and \<^verbatim>\<open>TUpdateMethod\<close> are
  missing from the sources. The specification (section 6) gives the two policies and
  \<^verbatim>\<open>TopSize\<close>, a positive integer.\<close>

datatype EUpdateType = AllPoints | TopKLeaves

record TUpdateMethod =
  UpdateType :: EUpdateType
  TopSize :: nat

text \<open>Modelled from the spec: the declaration of \<^verbatim>\<open>TDocumentImportancesEvaluator\<close>
  (\<^verbatim>\<open>docs_importance_helpers.h\<close>) is missing from the sources. The record holds the
  members the functions read: of the model, the tree depths
  \<^verbatim>\<open>Model.ObliviousTrees.TreeSizes\<close>, which are \<^verbatim>\<open>int\<close>.\<close>

record 'a TDocumentImportancesEvaluator =
  TreeSizes :: "int list"
  TreesStatistics :: "'a TTreeStatistics list"
  FinalFirstDerivatives :: "'a list"
  UpdateMethod :: TUpdateMethod
  TreeCount :: nat
  DocCount :: nat
  LearningRate :: 'a
  LeavesEstimationIterations :: nat

section \<open>GetLeafIdToUpdate\<close>

text \<open>Body of the loop over the training documents (source lines 56 to 58).\<close>

definition leafJacobians_step ::
  "nat list \<Rightarrow> 'a::{plus,abs} list \<Rightarrow> nat \<Rightarrow> 'a list \<Rightarrow> error + 'a list" where
  "leafJacobians_step leafIndices jacobian docId leafJacobians =
     bindE (vec_at leafIndices docId) (\<lambda>leafId.
     bindE (vec_at jacobian docId) (\<lambda>j.
     bindE (vec_at leafJacobians leafId) (\<lambda>s.
       Inr (leafJacobians[leafId := s + abs j]))))"

text \<open>
  \<^verbatim>\<open>Sort\<close> is the library's \<^verbatim>\<open>std::sort\<close>, which fixes no order among ties; it is the
  parameter \<open>Sort\<close>, called with the comparator of the source.
\<close>

definition GetLeafIdToUpdate ::
  "((nat \<Rightarrow> nat \<Rightarrow> bool) \<Rightarrow> nat list \<Rightarrow> nat list) \<Rightarrow>
   'a::{zero,plus,abs,ord} TDocumentImportancesEvaluator \<Rightarrow> nat \<Rightarrow> 'a list \<Rightarrow> error + nat list" where
  "GetLeafIdToUpdate Sort ev treeId jacobian =
     bindE (vec_at (TreeSizes ev) treeId) (\<lambda>depth.
     bindE (shl1 depth) (\<lambda>leafCount.
       case UpdateType (UpdateMethod ev) of
         AllPoints \<Rightarrow> Inr [0..<leafCount]
       | TopKLeaves \<Rightarrow>
           bindE (vec_at (TreesStatistics ev) treeId) (\<lambda>ts.
           bindE (loopE (leafJacobians_step (LeafIndices ts) jacobian) [0..<DocCount ev]
                    (replicate leafCount 0)) (\<lambda>leafJacobians.
             let orderedLeafIndices =
               Sort (\<lambda>firstDocId secondDocId.
                       leafJacobians ! firstDocId > leafJacobians ! secondDocId)
                 [0..<leafCount]
             in Inr (take (min (TopSize (UpdateMethod ev)) leafCount) orderedLeafIndices)))))"

section \<open>UpdateLeavesDerivativesForTree\<close>

text \<open>Body of the loop over the documents of one leaf (source line 152).\<close>

definition numerator_step ::
  "'a::{plus,times} list \<Rightarrow> 'a list \<Rightarrow> nat \<Rightarrow> nat \<Rightarrow> 'a list \<Rightarrow> error + 'a list" where
  "numerator_step formulaNumeratorMultiplier jacobian leafId docId leafDerivativesRef =
     bindE (vec_at formulaNumeratorMultiplier docId) (\<lambda>m.
     bindE (vec_at jacobian docId) (\<lambda>j.
     bindE (vec_at leafDerivativesRef leafId) (\<lambda>v.
       Inr (leafDerivativesRef[leafId := v + m * j]))))"

text \<open>Body of the loop over the leaves to update (source lines 151 to 158); the state
  is the buffer and the flag \<^verbatim>\<open>isRemovedDocUpdated\<close>.\<close>

definition leaf_step ::
  "'a::{zero,plus,times,uminus,inverse} TTreeStatistics \<Rightarrow> 'a list \<Rightarrow> 'a list \<Rightarrow> 'a list \<Rightarrow> 'a \<Rightarrow>
   nat \<Rightarrow> nat \<Rightarrow> 'a list \<Rightarrow> nat \<Rightarrow> 'a list \<times> bool \<Rightarrow> error + 'a list \<times> bool" where
  "leaf_step treeStatistics formulaNumeratorMultiplier formulaNumeratorAdding formulaDenominators
      learningRate removedDocId removedDocLeafId jacobian leafId st =
     (case st of (ld, isRemovedDocUpdated) \<Rightarrow>
       bindE (vec_at (LeavesDocId treeStatistics) leafId) (\<lambda>docs.
       bindE (loopE (numerator_step formulaNumeratorMultiplier jacobian leafId) docs ld) (\<lambda>ld1.
       bindE (if leafId = removedDocLeafId
              then bindE (vec_at formulaNumeratorAdding removedDocId) (\<lambda>a.
                   bindE (vec_at ld1 leafId) (\<lambda>v. Inr (ld1[leafId := v + a])))
              else Inr ld1) (\<lambda>ld2.
       bindE (vec_at formulaDenominators leafId) (\<lambda>d.
       bindE (fdiv (- learningRate) d) (\<lambda>scale.
       bindE (vec_at ld2 leafId) (\<lambda>v.
         Inr (ld2[leafId := v * scale],
              isRemovedDocUpdated \<or> leafId = removedDocLeafId))))))))"

text \<open>
  The buffer behind \<^verbatim>\<open>leafDerivatives\<close> is resized to \<^verbatim>\<open>LeafCount\<close> and filled with
  zeros first, so nothing of its old content is read: the model takes the old
  buffer as an argument, as the source does, and starts from \<open>replicate LeafCount 0\<close>.
\<close>

definition UpdateLeavesDerivativesForTree ::
  "'a::{zero,plus,times,uminus,inverse} TDocumentImportancesEvaluator \<Rightarrow> nat list \<Rightarrow> nat \<Rightarrow>
   'a list \<Rightarrow> nat \<Rightarrow> nat \<Rightarrow> 'a list \<Rightarrow> error + 'a list" where
  "UpdateLeavesDerivativesForTree ev leafIdToUpdate removedDocId jacobian treeId
      leavesEstimationIteration leafDerivatives =
     bindE (vec_at (TreesStatistics ev) treeId) (\<lambda>treeStatistics.
     bindE (vec_at (FormulaNumeratorMultiplier treeStatistics) leavesEstimationIteration)
       (\<lambda>formulaNumeratorMultiplier.
     bindE (vec_at (FormulaNumeratorAdding treeStatistics) leavesEstimationIteration)
       (\<lambda>formulaNumeratorAdding.
     bindE (vec_at (FormulaDenominators treeStatistics) leavesEstimationIteration)
       (\<lambda>formulaDenominators.
     bindE (vec_at (LeafIndices treeStatistics) removedDocId) (\<lambda>removedDocLeafId.
     bindE (loopE (leaf_step treeStatistics formulaNumeratorMultiplier formulaNumeratorAdding
                     formulaDenominators (LearningRate ev) removedDocId removedDocLeafId jacobian)
              leafIdToUpdate (replicate (LeafCount treeStatistics) 0, False)) (\<lambda>st.
       case st of (ld, isRemovedDocUpdated) \<Rightarrow>
         if \<not> isRemovedDocUpdated then
           bindE (vec_at jacobian removedDocId) (\<lambda>j.
           bindE (vec_at formulaNumeratorMultiplier removedDocId) (\<lambda>m.
           bindE (vec_at ld removedDocLeafId) (\<lambda>v0.
           bindE (vec_at formulaNumeratorAdding removedDocId) (\<lambda>a.
           bindE (vec_at formulaDenominators removedDocLeafId) (\<lambda>d.
           bindE (fdiv (- LearningRate ev) d) (\<lambda>scale.
             Inr (ld[removedDocLeafId := (v0 + j * m + a) * scale])))))))
         else Inr ld))))))"

section \<open>UpdateLeavesDerivatives\<close>

text \<open>Body of the loop over the documents of one updated leaf (source line 97).\<close>

definition jacobian_doc_step ::
  "'a::plus list \<Rightarrow> nat \<Rightarrow> nat \<Rightarrow> 'a list \<Rightarrow> error + 'a list" where
  "jacobian_doc_step leafDerivativesRef leafId docId jacobian =
     bindE (vec_at leafDerivativesRef leafId) (\<lambda>v.
     bindE (vec_at jacobian docId) (\<lambda>j.
       Inr (jacobian[docId := j + v])))"

text \<open>Body of the loop over the leaves to update (source lines 96 to 99).\<close>

definition jacobian_leaf_step ::
  "'a::plus TTreeStatistics \<Rightarrow> nat \<Rightarrow> 'a list \<Rightarrow> nat \<Rightarrow> 'a list \<times> bool \<Rightarrow>
   error + 'a list \<times> bool" where
  "jacobian_leaf_step treeStatistics removedDocId leafDerivativesRef leafId st =
     (case st of (jacobian, isRemovedDocUpdated) \<Rightarrow>
       bindE (vec_at (LeavesDocId treeStatistics) leafId) (\<lambda>docs.
       bindE (loopE (jacobian_doc_step leafDerivativesRef leafId) docs jacobian) (\<lambda>jacobian'.
       bindE (vec_at (LeafIndices treeStatistics) removedDocId) (\<lambda>removedDocLeafId.
         Inr (jacobian', isRemovedDocUpdated \<or> removedDocLeafId = leafId)))))"

text \<open>The update of the jacobian after one call of
  \<open>UpdateLeavesDerivativesForTree\<close> (source lines 94 to 104).\<close>

definition UpdateJacobian ::
  "'a::plus TTreeStatistics \<Rightarrow> nat list \<Rightarrow> nat \<Rightarrow> 'a list \<Rightarrow> 'a list \<Rightarrow> error + 'a list" where
  "UpdateJacobian treeStatistics leafIdToUpdate removedDocId leafDerivativesRef jacobian =
     bindE (loopE (jacobian_leaf_step treeStatistics removedDocId leafDerivativesRef)
              leafIdToUpdate (jacobian, False)) (\<lambda>st.
       case st of (jacobian', isRemovedDocUpdated) \<Rightarrow>
         if \<not> isRemovedDocUpdated then
           bindE (vec_at (LeafIndices treeStatistics) removedDocId) (\<lambda>removedDocLeafId.
           bindE (vec_at leafDerivativesRef removedDocLeafId) (\<lambda>v.
           bindE (vec_at jacobian' removedDocId) (\<lambda>j.
             Inr (jacobian'[removedDocId := j + v]))))
         else Inr jacobian')"

text \<open>Body of the loop over the leaves-estimation iterations of one tree (source
  lines 80 to 104); the state is the jacobian and the tensor of leaf derivatives.\<close>

definition iteration_step ::
  "((nat \<Rightarrow> nat \<Rightarrow> bool) \<Rightarrow> nat list \<Rightarrow> nat list) \<Rightarrow>
   'a::{zero,plus,times,uminus,inverse,abs,ord} TDocumentImportancesEvaluator \<Rightarrow> nat \<Rightarrow> nat \<Rightarrow>
   'a TTreeStatistics \<Rightarrow> nat \<Rightarrow> 'a list \<times> 'a list list list \<Rightarrow>
   error + 'a list \<times> 'a list list list" where
  "iteration_step Sort ev removedDocId treeId treeStatistics it st =
     (case st of (jacobian, leafDerivatives) \<Rightarrow>
       bindE (GetLeafIdToUpdate Sort ev treeId jacobian) (\<lambda>leafIdToUpdate.
       bindE (vec_at leafDerivatives treeId) (\<lambda>leafDerivativesOfTree.
       bindE (vec_at leafDerivativesOfTree it) (\<lambda>leafDerivativesRef.
       bindE (UpdateLeavesDerivativesForTree ev leafIdToUpdate removedDocId jacobian treeId it
                leafDerivativesRef) (\<lambda>leafDerivativesRef'.
       bindE (UpdateJacobian treeStatistics leafIdToUpdate removedDocId leafDerivativesRef'
                jacobian) (\<lambda>jacobian'.
         Inr (jacobian',
              leafDerivatives[treeId := leafDerivativesOfTree[it := leafDerivativesRef']])))))))"

text \<open>Body of the loop over the trees (source lines 78 to 105).\<close>

definition tree_step ::
  "((nat \<Rightarrow> nat \<Rightarrow> bool) \<Rightarrow> nat list \<Rightarrow> nat list) \<Rightarrow>
   'a::{zero,plus,times,uminus,inverse,abs,ord} TDocumentImportancesEvaluator \<Rightarrow> nat \<Rightarrow> nat \<Rightarrow>
   'a list \<times> 'a list list list \<Rightarrow> error + 'a list \<times> 'a list list list" where
  "tree_step Sort ev removedDocId treeId st =
     bindE (vec_at (TreesStatistics ev) treeId) (\<lambda>treeStatistics.
       loopE (iteration_step Sort ev removedDocId treeId treeStatistics)
         [0..<LeavesEstimationIterations ev] st)"

text \<open>The jacobian is local to the call and starts at zero; the tensor of leaf
  derivatives is the caller's, updated in place, and is what the model returns.\<close>

definition UpdateLeavesDerivatives ::
  "((nat \<Rightarrow> nat \<Rightarrow> bool) \<Rightarrow> nat list \<Rightarrow> nat list) \<Rightarrow>
   'a::{zero,plus,times,uminus,inverse,abs,ord} TDocumentImportancesEvaluator \<Rightarrow> nat \<Rightarrow>
   'a list list list \<Rightarrow> error + 'a list list list" where
  "UpdateLeavesDerivatives Sort ev removedDocId leafDerivatives =
     bindE (loopE (tree_step Sort ev removedDocId) [0..<TreeCount ev]
              (replicate (DocCount ev) 0, leafDerivatives)) (\<lambda>st. Inr (snd st))"

section \<open>GetDocumentImportancesForOneTrainDoc\<close>

text \<open>Body of the innermost loop (source line 122).\<close>

definition predicted_step ::
  "nat list \<Rightarrow> 'a::plus list \<Rightarrow> nat \<Rightarrow> 'a list \<Rightarrow> error + 'a list" where
  "predicted_step leafIndicesRef leafDerivativesRef docId predictedDerivatives =
     bindE (vec_at leafIndicesRef docId) (\<lambda>leafId.
     bindE (vec_at leafDerivativesRef leafId) (\<lambda>v.
     bindE (vec_at predictedDerivatives docId) (\<lambda>p.
       Inr (predictedDerivatives[docId := p + v]))))"

text \<open>The loops over the trees and the iterations (source lines 117 to 125).\<close>

definition predicted_iteration_step ::
  "'a::plus list list list \<Rightarrow> nat list \<Rightarrow> nat \<Rightarrow> nat \<Rightarrow> nat \<Rightarrow> 'a list \<Rightarrow> error + 'a list" where
  "predicted_iteration_step leafDerivatives leafIndicesRef docCount treeId it predictedDerivatives =
     bindE (vec_at leafDerivatives treeId) (\<lambda>leafDerivativesOfTree.
     bindE (vec_at leafDerivativesOfTree it) (\<lambda>leafDerivativesRef.
       loopE (predicted_step leafIndicesRef leafDerivativesRef) [0..<docCount]
         predictedDerivatives))"

definition predicted_tree_step ::
  "'a::plus list list list \<Rightarrow> nat list list \<Rightarrow> nat \<Rightarrow> nat \<Rightarrow> nat \<Rightarrow> 'a list \<Rightarrow>
   error + 'a list" where
  "predicted_tree_step leafDerivatives leafIndices iterations docCount treeId predictedDerivatives =
     bindE (vec_at leafIndices treeId) (\<lambda>leafIndicesRef.
       loopE (predicted_iteration_step leafDerivatives leafIndicesRef docCount treeId)
         [0..<iterations] predictedDerivatives)"

text \<open>Body of the last loop (source line 128).\<close>

definition importance_step ::
  "'a::times list \<Rightarrow> 'a list \<Rightarrow> nat \<Rightarrow> 'a list \<Rightarrow> error + 'a list" where
  "importance_step finalFirstDerivatives predictedDerivatives docId documentImportance =
     bindE (vec_at finalFirstDerivatives docId) (\<lambda>f.
     bindE (vec_at predictedDerivatives docId) (\<lambda>p.
     bindE (vec_at documentImportance docId) (\<lambda>_.
       Inr (documentImportance[docId := f * p]))))"

definition GetDocumentImportancesForOneTrainDoc ::
  "'a::{zero,plus,times} TDocumentImportancesEvaluator \<Rightarrow> 'a list list list \<Rightarrow> nat list list \<Rightarrow>
   'a list \<Rightarrow> error + 'a list" where
  "GetDocumentImportancesForOneTrainDoc ev leafDerivatives leafIndices documentImportance =
     (let docCount = length documentImportance in
      bindE (loopE (predicted_tree_step leafDerivatives leafIndices
                      (LeavesEstimationIterations ev) docCount)
               [0..<TreeCount ev] (replicate docCount 0)) (\<lambda>predictedDerivatives.
        loopE (importance_step (FinalFirstDerivatives ev) predictedDerivatives) [0..<docCount]
          documentImportance))"

section \<open>UpdateFinalFirstDerivatives and GetDocumentImportances\<close>

text \<open>Body of the innermost loop (source line 37).\<close>

definition approx_step ::
  "nat list \<Rightarrow> 'a::plus list \<Rightarrow> nat \<Rightarrow> 'a list \<Rightarrow> error + 'a list" where
  "approx_step leafIndicesRef leafValues docId finalApproxes =
     bindE (vec_at leafIndicesRef docId) (\<lambda>leafId.
     bindE (vec_at leafValues leafId) (\<lambda>v.
     bindE (vec_at finalApproxes docId) (\<lambda>p.
       Inr (finalApproxes[docId := p + v]))))"

definition approx_iteration_step ::
  "'a::plus TDocumentImportancesEvaluator \<Rightarrow> nat list \<Rightarrow> nat \<Rightarrow> nat \<Rightarrow> nat \<Rightarrow> 'a list \<Rightarrow>
   error + 'a list" where
  "approx_iteration_step ev leafIndicesRef docCount treeId it finalApproxes =
     bindE (vec_at (TreesStatistics ev) treeId) (\<lambda>treeStatistics.
     bindE (vec_at (LeafValues treeStatistics) it) (\<lambda>leafValues.
       loopE (approx_step leafIndicesRef leafValues) [0..<docCount] finalApproxes))"

definition approx_tree_step ::
  "'a::plus TDocumentImportancesEvaluator \<Rightarrow> nat list list \<Rightarrow> nat \<Rightarrow> nat \<Rightarrow> 'a list \<Rightarrow>
   error + 'a list" where
  "approx_tree_step ev leafIndices docCount treeId finalApproxes =
     bindE (vec_at leafIndices treeId) (\<lambda>leafIndicesRef.
       loopE (approx_iteration_step ev leafIndicesRef docCount treeId)
         [0..<LeavesEstimationIterations ev] finalApproxes)"

text \<open>
  \<^verbatim>\<open>EvaluateDerivatives\<close> (\<^verbatim>\<open>ders_helpers.h\<close>) is not part of the sources: it is the
  parameter \<open>EvaluateDerivatives\<close>, from the final approxes to the first derivatives
  it stores in \<^verbatim>\<open>FinalFirstDerivatives\<close>; the loss function, the estimation method
  and the pool's targets are fixed inside it. The pool is its document count.
\<close>

definition UpdateFinalFirstDerivatives ::
  "('a list \<Rightarrow> 'a list) \<Rightarrow> 'a::{zero,plus} TDocumentImportancesEvaluator \<Rightarrow> nat list list \<Rightarrow> nat \<Rightarrow>
   error + 'a TDocumentImportancesEvaluator" where
  "UpdateFinalFirstDerivatives EvaluateDerivatives ev leafIndices docCount =
     bindE (loopE (approx_tree_step ev leafIndices docCount) [0..<TreeCount ev]
              (replicate docCount 0)) (\<lambda>finalApproxes.
       Inr (ev\<lparr>FinalFirstDerivatives := EvaluateDerivatives finalApproxes\<rparr>))"

text \<open>
  \<^verbatim>\<open>BinarizeFeatures\<close> and \<^verbatim>\<open>BuildIndicesForBinTree\<close> (\<^verbatim>\<open>index_calcer.h\<close>) are not part of
  the sources: \<open>BuildIndicesForBinTree treeId\<close> is the vector of the leaf indices of
  the pool's documents in the tree. The two \<^verbatim>\<open>ExecRange\<close> calls run tasks that write
  disjoint slots and are waited for, so each is a map over its range.
\<close>

definition GetDocumentImportances ::
  "((nat \<Rightarrow> nat \<Rightarrow> bool) \<Rightarrow> nat list \<Rightarrow> nat list) \<Rightarrow> (nat \<Rightarrow> nat list) \<Rightarrow> ('a list \<Rightarrow> 'a list) \<Rightarrow>
   'a::{zero,plus,times,uminus,inverse,abs,ord} TDocumentImportancesEvaluator \<Rightarrow> nat \<Rightarrow>
   error + 'a list list" where
  "GetDocumentImportances Sort BuildIndicesForBinTree EvaluateDerivatives ev poolDocCount =
     (let leafIndices = map BuildIndicesForBinTree [0..<TreeCount ev] in
      bindE (UpdateFinalFirstDerivatives EvaluateDerivatives ev leafIndices poolDocCount) (\<lambda>ev'.
        mapE (\<lambda>docId.
                bindE (UpdateLeavesDerivatives Sort ev' docId
                         (replicate (TreeCount ev')
                            (replicate (LeavesEstimationIterations ev') []))) (\<lambda>leafDerivatives.
                  GetDocumentImportancesForOneTrainDoc ev' leafDerivatives leafIndices
                    (replicate poolDocCount 0)))
          [0..<DocCount ev']))"

section \<open>Specification vocabulary\<close>

text \<open>The sum of a list the way a loop with \<^verbatim>\<open>+=\<close> computes it: from zero, left to
  right.\<close>

definition running_sum :: "'a::{zero,plus} list \<Rightarrow> 'a" where
  "running_sum xs = foldl (+) 0 xs"

text \<open>The value a selected leaf \<open>L\<close> gets (source lines 151 to 157), for the removed
  document \<open>r\<close>, the jacobian \<open>j\<close> and the rows \<open>m\<close>, \<open>a\<close>, \<open>dn\<close> of the iteration's
  multipliers, addends and denominators.\<close>

definition selected_leaf_value ::
  "'a::{zero,plus,times,uminus,inverse} TTreeStatistics \<Rightarrow> 'a list \<Rightarrow> 'a list \<Rightarrow> 'a list \<Rightarrow> 'a \<Rightarrow>
   nat \<Rightarrow> 'a list \<Rightarrow> nat \<Rightarrow> 'a" where
  "selected_leaf_value ts m a dn lr r j L =
     (if L = LeafIndices ts ! r
      then running_sum (map (\<lambda>doc. m ! doc * j ! doc) (LeavesDocId ts ! L)) + a ! r
      else running_sum (map (\<lambda>doc. m ! doc * j ! doc) (LeavesDocId ts ! L)))
     * (- lr / dn ! L)"

text \<open>The value the leaf of the removed document gets when it was not selected
  (source lines 161 to 163), on top of the zero the buffer holds there.\<close>

definition correction_value ::
  "'a::{zero,plus,times,uminus,inverse} TTreeStatistics \<Rightarrow> 'a list \<Rightarrow> 'a list \<Rightarrow> 'a list \<Rightarrow> 'a \<Rightarrow>
   nat \<Rightarrow> 'a list \<Rightarrow> 'a" where
  "correction_value ts m a dn lr r j =
     (0 + j ! r * m ! r + a ! r) * (- lr / dn ! (LeafIndices ts ! r))"

definition leaf_derivative_value ::
  "'a::{zero,plus,times,uminus,inverse} TTreeStatistics \<Rightarrow> 'a list \<Rightarrow> 'a list \<Rightarrow> 'a list \<Rightarrow> 'a \<Rightarrow>
   nat \<Rightarrow> 'a list \<Rightarrow> nat list \<Rightarrow> nat \<Rightarrow> 'a" where
  "leaf_derivative_value ts m a dn lr r j sel L =
     (if L \<in> set sel then selected_leaf_value ts m a dn lr r j L
      else if L = LeafIndices ts ! r then correction_value ts m a dn lr r j
      else 0)"

text \<open>The aggregate absolute jacobian of a leaf (source lines 55 to 58): the sum of
  \<open>|jacobian[doc]|\<close> over the training documents the tree sends to the leaf, in the
  order of the document ids.\<close>

definition leaf_mass :: "nat list \<Rightarrow> 'a::{zero,plus,abs} list \<Rightarrow> nat \<Rightarrow> nat \<Rightarrow> 'a" where
  "leaf_mass leafIndices jacobian docCount L =
     running_sum (map (\<lambda>doc. abs (jacobian ! doc))
                    (filter (\<lambda>doc. leafIndices ! doc = L) [0..<docCount]))"

text \<open>The jacobian after the update of one iteration (source lines 94 to 104), document
  by document, for the leaf derivatives \<open>ld\<close> of the iteration.\<close>

definition updated_jacobian ::
  "'a::plus TTreeStatistics \<Rightarrow> nat list \<Rightarrow> nat \<Rightarrow> 'a list \<Rightarrow> 'a list \<Rightarrow> nat \<Rightarrow> 'a" where
  "updated_jacobian ts sel r ld jac d =
     (if LeafIndices ts ! d \<in> set sel then jac ! d + ld ! (LeafIndices ts ! d)
      else if d = r then jac ! r + ld ! (LeafIndices ts ! r)
      else jac ! d)"

text \<open>The predicted derivative of an evaluation document \<open>e\<close> (source lines 117 to
  125): the sum, tree by tree and iteration by iteration, of the leaf derivative at
  the leaf the tree sends \<open>e\<close> to.\<close>

definition predicted_derivative ::
  "'a::{zero,plus} list list list \<Rightarrow> nat list list \<Rightarrow> nat \<Rightarrow> nat \<Rightarrow> nat \<Rightarrow> 'a" where
  "predicted_derivative leafDerivatives leafIndices treeCount iterations e =
     running_sum
       (concat (map (\<lambda>tree. map (\<lambda>it. leafDerivatives ! tree ! it ! (leafIndices ! tree ! e))
                               [0..<iterations])
                  [0..<treeCount]))"

text \<open>The invariants of the data model: the sizes of the tables of one tree agree
  with the document count, the number of leaves-estimation iterations and the
  tree's depth, and every index stored in them is in range.\<close>

definition wf_tree :: "nat \<Rightarrow> nat \<Rightarrow> int \<Rightarrow> 'a TTreeStatistics \<Rightarrow> bool" where
  "wf_tree docCount iterations depth ts \<longleftrightarrow>
     0 \<le> depth \<and> depth < 32 \<and> LeafCount ts = 2 ^ nat depth \<and>
     length (LeafIndices ts) = docCount \<and>
     (\<forall>l\<in>set (LeafIndices ts). l < LeafCount ts) \<and>
     length (LeavesDocId ts) = LeafCount ts \<and>
     (\<forall>docs\<in>set (LeavesDocId ts). \<forall>d\<in>set docs. d < docCount) \<and>
     length (LeafValues ts) = iterations \<and>
     length (FormulaNumeratorMultiplier ts) = iterations \<and>
     length (FormulaNumeratorAdding ts) = iterations \<and>
     length (FormulaDenominators ts) = iterations \<and>
     (\<forall>it\<in>{0..<iterations}.
        length (LeafValues ts ! it) = LeafCount ts \<and>
        length (FormulaNumeratorMultiplier ts ! it) = docCount \<and>
        length (FormulaNumeratorAdding ts ! it) = docCount \<and>
        length (FormulaDenominators ts ! it) = LeafCount ts)"

definition wf_evaluator :: "'a TDocumentImportancesEvaluator \<Rightarrow> bool" where
  "wf_evaluator ev \<longleftrightarrow>
     length (TreesStatistics ev) = TreeCount ev \<and>
     length (TreeSizes ev) = TreeCount ev \<and>
     (\<forall>t\<in>{0..<TreeCount ev}.
        wf_tree (DocCount ev) (LeavesEstimationIterations ev) (TreeSizes ev ! t)
          (TreesStatistics ev ! t))"

text \<open>No denominator of the leaf-value formula is zero.\<close>

definition nonzero_denominators :: "'a::zero TDocumentImportancesEvaluator \<Rightarrow> bool" where
  "nonzero_denominators ev \<longleftrightarrow>
     (\<forall>ts\<in>set (TreesStatistics ev). \<forall>dn\<in>set (FormulaDenominators ts). \<forall>x\<in>set dn. x \<noteq> 0)"

text \<open>\<^verbatim>\<open>LeavesDocId\<close> is the inverse of \<^verbatim>\<open>LeafIndices\<close>: the bucket of a leaf lists, once
  each, the documents the tree sends to that leaf.\<close>

definition buckets_partition :: "nat \<Rightarrow> 'a TTreeStatistics \<Rightarrow> bool" where
  "buckets_partition docCount ts \<longleftrightarrow>
     (\<forall>L\<in>{0..<LeafCount ts}.
        distinct (LeavesDocId ts ! L) \<and>
        (\<forall>d\<in>{0..<docCount}. d \<in> set (LeavesDocId ts ! L) \<longleftrightarrow> LeafIndices ts ! d = L))"

text \<open>The invariant of the whole ensemble: every tree's buckets are the inverse of
  its leaf indices.\<close>

definition wf_buckets :: "'a TDocumentImportancesEvaluator \<Rightarrow> bool" where
  "wf_buckets ev \<longleftrightarrow>
     (\<forall>t\<in>{0..<TreeCount ev}. buckets_partition (DocCount ev) (TreesStatistics ev ! t))"

text \<open>What the evaluator needs of its collaborators: \<^verbatim>\<open>BuildIndicesForBinTree\<close> returns
  one leaf of the tree per document of the pool, and \<^verbatim>\<open>EvaluateDerivatives\<close> one
  derivative per approx.\<close>

definition wf_pool ::
  "'a TDocumentImportancesEvaluator \<Rightarrow> (nat \<Rightarrow> nat list) \<Rightarrow> nat \<Rightarrow> bool" where
  "wf_pool ev BuildIndicesForBinTree poolDocCount \<longleftrightarrow>
     (\<forall>t\<in>{0..<TreeCount ev}.
        length (BuildIndicesForBinTree t) = poolDocCount \<and>
        (\<forall>l\<in>set (BuildIndicesForBinTree t). l < LeafCount (TreesStatistics ev ! t)))"

definition sized_derivatives :: "('a list \<Rightarrow> 'a list) \<Rightarrow> bool" where
  "sized_derivatives EvaluateDerivatives \<longleftrightarrow>
     (\<forall>approxes. length (EvaluateDerivatives approxes) = length approxes)"

text \<open>The shape of the tensor of leaf derivatives: one vector per tree and iteration,
  one entry per leaf.\<close>

definition derivatives_shape ::
  "'a TDocumentImportancesEvaluator \<Rightarrow> 'a list list list \<Rightarrow> bool" where
  "derivatives_shape ev lds \<longleftrightarrow>
     length lds = TreeCount ev \<and>
     (\<forall>t<TreeCount ev.
        length (lds ! t) = LeavesEstimationIterations ev \<and>
        (\<forall>it<LeavesEstimationIterations ev.
           length (lds ! t ! it) = LeafCount (TreesStatistics ev ! t)))"

text \<open>The state of the loops of \<open>UpdateLeavesDerivatives\<close> when tree \<open>t\<close> is at
  iteration \<open>i\<close>.\<close>

definition loop_state ::
  "'a TDocumentImportancesEvaluator \<Rightarrow> nat \<Rightarrow> nat \<Rightarrow> 'a list \<times> 'a list list list \<Rightarrow> bool" where
  "loop_state ev t i st \<longleftrightarrow>
     length (fst st) = DocCount ev \<and> length (snd st) = TreeCount ev \<and>
     (\<forall>t'<TreeCount ev. length (snd st ! t') = LeavesEstimationIterations ev) \<and>
     (\<forall>t'<t. \<forall>it<LeavesEstimationIterations ev.
        length (snd st ! t' ! it) = LeafCount (TreesStatistics ev ! t')) \<and>
     (\<forall>it<i. length (snd st ! t ! it) = LeafCount (TreesStatistics ev ! t))"

text \<open>
  The contract of \<^verbatim>\<open>std::sort\<close>: called with a comparator that is a strict weak
  ordering, it returns a permutation of its input in which no element is ordered
  before an earlier one. With any other comparator the behaviour is undefined,
  and nothing is assumed.
\<close>

definition strict_weak_order :: "('b \<Rightarrow> 'b \<Rightarrow> bool) \<Rightarrow> bool" where
  "strict_weak_order cmp \<longleftrightarrow>
     (\<forall>x. \<not> cmp x x) \<and>
     (\<forall>x y z. cmp x y \<and> cmp y z \<longrightarrow> cmp x z) \<and>
     (\<forall>x y z. \<not> cmp x y \<and> \<not> cmp y x \<and> \<not> cmp y z \<and> \<not> cmp z y \<longrightarrow> \<not> cmp x z \<and> \<not> cmp z x)"

definition Sort_contract :: "(('b \<Rightarrow> 'b \<Rightarrow> bool) \<Rightarrow> 'b list \<Rightarrow> 'b list) \<Rightarrow> bool" where
  "Sort_contract Sort \<longleftrightarrow>
     (\<forall>cmp xs. strict_weak_order cmp \<longrightarrow>
        mset (Sort cmp xs) = mset xs \<and> sorted_wrt (\<lambda>x y. \<not> cmp y x) (Sort cmp xs))"

text \<open>One sort that meets the contract, to run the model on concrete inputs: the
  insertion sort, which keeps ties in their order.\<close>

fun insert_by :: "('b \<Rightarrow> 'b \<Rightarrow> bool) \<Rightarrow> 'b \<Rightarrow> 'b list \<Rightarrow> 'b list" where
  "insert_by cmp x [] = [x]"
| "insert_by cmp x (y # ys) = (if cmp y x then y # insert_by cmp x ys else x # y # ys)"

definition insertion_Sort :: "('b \<Rightarrow> 'b \<Rightarrow> bool) \<Rightarrow> 'b list \<Rightarrow> 'b list" where
  "insertion_Sort cmp xs = foldr (insert_by cmp) xs []"

section \<open>A concrete evaluator\<close>

text \<open>Two trees of depth one over three training documents, one leaves-estimation
  iteration, and the policy \<^verbatim>\<open>TopKLeaves\<close> with \<^verbatim>\<open>TopSize = 1\<close>: document 0 falls into
  leaf 0, documents 1 and 2 into leaf 1.\<close>

definition example_tree :: "real TTreeStatistics" where
  "example_tree =
     \<lparr> LeafCount = 2, LeafIndices = [0, 1, 1], LeavesDocId = [[0], [1, 2]],
       LeafValues = [[1, 2]],
       FormulaNumeratorMultiplier = [[2, 3, 5]],
       FormulaNumeratorAdding = [[7, 11, 13]],
       FormulaDenominators = [[2, 4]] \<rparr>"

definition example_evaluator :: "real TDocumentImportancesEvaluator" where
  "example_evaluator =
     \<lparr> TreeSizes = [1, 1], TreesStatistics = [example_tree, example_tree],
       FinalFirstDerivatives = [],
       UpdateMethod = \<lparr> UpdateType = TopKLeaves, TopSize = 1 \<rparr>,
       TreeCount = 2, DocCount = 3, LearningRate = 1, LeavesEstimationIterations = 1 \<rparr>"

text \<open>The same evaluator with a zero denominator at leaf 1 of the first tree.\<close>

definition degenerate_evaluator :: "real TDocumentImportancesEvaluator" where
  "degenerate_evaluator =
     example_evaluator
       \<lparr>TreesStatistics := [example_tree\<lparr>FormulaDenominators := [[2, 0]]\<rparr>, example_tree]\<rparr>"

section \<open>An arithmetic with non-finite values\<close>

text \<open>
  The values of an IEEE 754 \<^verbatim>\<open>double\<close> that no field has: the two infinities and
  NaN, next to the reals (without rounding and with one zero). The operations
  follow the standard on them: a sum of opposite infinities, a product of an
  infinity and zero and a quotient of two infinities or two zeros are NaN, NaN
  propagates, and no comparison with NaN holds.
\<close>

datatype ieee = Finite real | PosInf | NegInf | NaN

fun ieee_uminus :: "ieee \<Rightarrow> ieee" where
  "ieee_uminus (Finite a) = Finite (- a)"
| "ieee_uminus PosInf = NegInf"
| "ieee_uminus NegInf = PosInf"
| "ieee_uminus NaN = NaN"

fun ieee_plus :: "ieee \<Rightarrow> ieee \<Rightarrow> ieee" where
  "ieee_plus NaN y = NaN"
| "ieee_plus x NaN = NaN"
| "ieee_plus (Finite a) (Finite b) = Finite (a + b)"
| "ieee_plus (Finite a) y = y"
| "ieee_plus x (Finite b) = x"
| "ieee_plus x y = (if x = y then x else NaN)"

fun ieee_times :: "ieee \<Rightarrow> ieee \<Rightarrow> ieee" where
  "ieee_times NaN y = NaN"
| "ieee_times x NaN = NaN"
| "ieee_times (Finite a) (Finite b) = Finite (a * b)"
| "ieee_times (Finite a) y = (if a = 0 then NaN else if 0 < a then y else ieee_uminus y)"
| "ieee_times x (Finite b) = (if b = 0 then NaN else if 0 < b then x else ieee_uminus x)"
| "ieee_times x y = (if x = y then PosInf else NegInf)"

fun ieee_divide :: "ieee \<Rightarrow> ieee \<Rightarrow> ieee" where
  "ieee_divide NaN y = NaN"
| "ieee_divide x NaN = NaN"
| "ieee_divide (Finite a) (Finite b) =
     (if b \<noteq> 0 then Finite (a / b)
      else if a = 0 then NaN else if 0 < a then PosInf else NegInf)"
| "ieee_divide (Finite a) y = Finite 0"
| "ieee_divide x (Finite b) = (if 0 \<le> b then x else ieee_uminus x)"
| "ieee_divide x y = NaN"

fun ieee_abs :: "ieee \<Rightarrow> ieee" where
  "ieee_abs (Finite a) = Finite (abs a)"
| "ieee_abs NaN = NaN"
| "ieee_abs x = PosInf"

fun ieee_less :: "ieee \<Rightarrow> ieee \<Rightarrow> bool" where
  "ieee_less NaN y = False"
| "ieee_less x NaN = False"
| "ieee_less (Finite a) (Finite b) = (a < b)"
| "ieee_less x PosInf = (x \<noteq> PosInf)"
| "ieee_less NegInf y = (y \<noteq> NegInf)"
| "ieee_less x y = False"

instantiation ieee :: "{zero,plus,times,uminus,inverse,abs,ord}"
begin

definition zero_ieee :: ieee where
  "zero_ieee = Finite 0"

definition plus_ieee :: "ieee \<Rightarrow> ieee \<Rightarrow> ieee" where
  "plus_ieee = ieee_plus"

definition times_ieee :: "ieee \<Rightarrow> ieee \<Rightarrow> ieee" where
  "times_ieee = ieee_times"

definition uminus_ieee :: "ieee \<Rightarrow> ieee" where
  "uminus_ieee = ieee_uminus"

definition divide_ieee :: "ieee \<Rightarrow> ieee \<Rightarrow> ieee" where
  "divide_ieee = ieee_divide"

definition inverse_ieee :: "ieee \<Rightarrow> ieee" where
  "inverse_ieee x = ieee_divide (Finite 1) x"

definition abs_ieee :: "ieee \<Rightarrow> ieee" where
  "abs_ieee = ieee_abs"

definition less_ieee :: "ieee \<Rightarrow> ieee \<Rightarrow> bool" where
  "less_ieee = ieee_less"

definition less_eq_ieee :: "ieee \<Rightarrow> ieee \<Rightarrow> bool" where
  "less_eq_ieee x y \<longleftrightarrow> ieee_less x y \<or> (x = y \<and> x \<noteq> NaN)"

instance ..

end

text \<open>An evaluator over this arithmetic with one tree of one leaf, two training
  documents and no leaves-estimation iteration; a pool of two documents; and two
  derivative sources, one returning 3 and one returning the positive infinity at
  every document.\<close>

definition bare_evaluator :: "ieee TDocumentImportancesEvaluator" where
  "bare_evaluator =
     \<lparr> TreeSizes = [0],
       TreesStatistics =
         [\<lparr> LeafCount = 1, LeafIndices = [0, 0], LeavesDocId = [[0, 1]], LeafValues = [],
            FormulaNumeratorMultiplier = [], FormulaNumeratorAdding = [],
            FormulaDenominators = [] \<rparr>],
       FinalFirstDerivatives = [],
       UpdateMethod = \<lparr> UpdateType = AllPoints, TopSize = 0 \<rparr>,
       TreeCount = 1, DocCount = 2, LearningRate = Finite 1, LeavesEstimationIterations = 0 \<rparr>"

definition pool_leaves :: "nat \<Rightarrow> nat list" where
  "pool_leaves treeId = [0, 0]"

definition finite_derivatives :: "ieee list \<Rightarrow> ieee list" where
  "finite_derivatives approxes = map (\<lambda>x. Finite 3) approxes"

definition infinite_derivatives :: "ieee list \<Rightarrow> ieee list" where
  "infinite_derivatives approxes = map (\<lambda>x. PosInf) approxes"

section \<open>Basic facts\<close>

lemma bindE_Inr [simp]: "bindE (Inr v) f = f v"
  by (simp add: bindE_def)

lemma bindE_Inl [simp]: "bindE (Inl e) f = Inl e"
  by (simp add: bindE_def)

lemma vec_at_in [simp]: "i < length xs \<Longrightarrow> vec_at xs i = Inr (xs ! i)"
  by (simp add: vec_at_def)

lemma vec_at_out [simp]: "\<not> i < length xs \<Longrightarrow> vec_at xs i = Inl IndexOutOfRange"
  by (simp add: vec_at_def)

lemma fdiv_nonzero [simp]: "b \<noteq> 0 \<Longrightarrow> fdiv a b = Inr (a / b)"
  by (simp add: fdiv_def)

text \<open>Where addition is associative with unit zero, the running sum is the sum.\<close>

lemma running_sum_sum_list: "running_sum xs = sum_list (xs :: 'a::monoid_add list)"
proof -
  have "foldl (+) a xs = a + sum_list xs" for a :: 'a
    by (induction xs arbitrary: a) (simp_all add: add.assoc)
  then show ?thesis
    by (simp add: running_sum_def)
qed

section \<open>The leaves' loop of UpdateLeavesDerivativesForTree\<close>

lemma loopE_numerator_step:
  assumes "L < length ld" and "\<forall>d\<in>set docs. d < length m \<and> d < length j"
  shows "loopE (numerator_step m j L) docs ld =
           Inr (ld[L := foldl (+) (ld ! L) (map (\<lambda>doc. m ! doc * j ! doc) docs)])"
  using assms
proof (induction docs arbitrary: ld)
  case Nil
  then show ?case by simp
next
  case (Cons d docs)
  have step: "numerator_step m j L d ld = Inr (ld[L := ld ! L + m ! d * j ! d])"
    using Cons.prems by (simp add: numerator_step_def)
  have "loopE (numerator_step m j L) docs (ld[L := ld ! L + m ! d * j ! d]) =
          Inr ((ld[L := ld ! L + m ! d * j ! d])
                 [L := foldl (+) ((ld[L := ld ! L + m ! d * j ! d]) ! L)
                         (map (\<lambda>doc. m ! doc * j ! doc) docs)])"
    using Cons.prems by (intro Cons.IH) simp_all
  then show ?case
    using Cons.prems step by simp
qed

lemma leaf_step_value:
  assumes "L < length ld" and "ld ! L = 0" and "L < length (LeavesDocId ts)"
    and "\<forall>d\<in>set (LeavesDocId ts ! L). d < length m \<and> d < length j"
    and "L = LeafIndices ts ! r \<longrightarrow> r < length a"
    and "L < length dn" and "dn ! L \<noteq> 0"
  shows "leaf_step ts m a dn lr r (LeafIndices ts ! r) j L (ld, u) =
           Inr (ld[L := selected_leaf_value ts m a dn lr r j L], u \<or> L = LeafIndices ts ! r)"
  using assms
  by (simp add: leaf_step_def loopE_numerator_step selected_leaf_value_def running_sum_def)

lemma loopE_leaf_step:
  assumes "distinct sel"
    and "\<forall>L\<in>set sel. L < length ld \<and> ld ! L = 0 \<and> L < length (LeavesDocId ts) \<and>
           (\<forall>d\<in>set (LeavesDocId ts ! L). d < length m \<and> d < length j) \<and>
           (L = LeafIndices ts ! r \<longrightarrow> r < length a) \<and> L < length dn \<and> dn ! L \<noteq> 0"
  shows "loopE (leaf_step ts m a dn lr r (LeafIndices ts ! r) j) sel (ld, u) =
           Inr (map (\<lambda>L. if L \<in> set sel then selected_leaf_value ts m a dn lr r j L else ld ! L)
                  [0..<length ld],
                u \<or> LeafIndices ts ! r \<in> set sel)"
  using assms
proof (induction sel arbitrary: ld u)
  case Nil
  then show ?case by (simp add: map_nth)
next
  case (Cons x xs)
  let ?ld1 = "ld[x := selected_leaf_value ts m a dn lr r j x]"
  have step: "leaf_step ts m a dn lr r (LeafIndices ts ! r) j x (ld, u) =
                Inr (?ld1, u \<or> x = LeafIndices ts ! r)"
    using Cons.prems by (intro leaf_step_value) simp_all
  have rest: "loopE (leaf_step ts m a dn lr r (LeafIndices ts ! r) j) xs
                (?ld1, u \<or> x = LeafIndices ts ! r) =
              Inr (map (\<lambda>L. if L \<in> set xs then selected_leaf_value ts m a dn lr r j L
                              else ?ld1 ! L) [0..<length ?ld1],
                   (u \<or> x = LeafIndices ts ! r) \<or> LeafIndices ts ! r \<in> set xs)"
  proof (intro Cons.IH)
    show "distinct xs" using Cons.prems by simp
    show "\<forall>L\<in>set xs. L < length ?ld1 \<and> ?ld1 ! L = 0 \<and> L < length (LeavesDocId ts) \<and>
           (\<forall>d\<in>set (LeavesDocId ts ! L). d < length m \<and> d < length j) \<and>
           (L = LeafIndices ts ! r \<longrightarrow> r < length a) \<and> L < length dn \<and> dn ! L \<noteq> 0"
    proof
      fix L assume L: "L \<in> set xs"
      then have "L \<noteq> x" using Cons.prems(1) by auto
      then show "L < length ?ld1 \<and> ?ld1 ! L = 0 \<and> L < length (LeavesDocId ts) \<and>
           (\<forall>d\<in>set (LeavesDocId ts ! L). d < length m \<and> d < length j) \<and>
           (L = LeafIndices ts ! r \<longrightarrow> r < length a) \<and> L < length dn \<and> dn ! L \<noteq> 0"
        using Cons.prems(2) L by simp
    qed
  qed
  have same: "map (\<lambda>L. if L \<in> set xs then selected_leaf_value ts m a dn lr r j L
                        else ?ld1 ! L) [0..<length ?ld1] =
              map (\<lambda>L. if L \<in> set (x # xs) then selected_leaf_value ts m a dn lr r j L
                        else ld ! L) [0..<length ld]"
    using Cons.prems by (auto simp: nth_list_update)
  show ?case
    using step rest same by auto
qed


section \<open>The sort and the selected leaves\<close>

lemma strict_weak_order_asym: "strict_weak_order cmp \<Longrightarrow> cmp x y \<Longrightarrow> \<not> cmp y x"
  unfolding strict_weak_order_def by blast

lemma strict_weak_order_negtrans:
  "strict_weak_order cmp \<Longrightarrow> \<not> cmp x y \<Longrightarrow> \<not> cmp y z \<Longrightarrow> \<not> cmp x z"
  unfolding strict_weak_order_def by blast

lemma mset_insert_by: "mset (insert_by cmp x ys) = add_mset x (mset ys)"
  by (induction ys) simp_all

lemma set_insert_by: "set (insert_by cmp x ys) = insert x (set ys)"
  by (induction ys) auto

lemma sorted_insert_by:
  assumes "strict_weak_order cmp" and "sorted_wrt (\<lambda>x y. \<not> cmp y x) ys"
  shows "sorted_wrt (\<lambda>x y. \<not> cmp y x) (insert_by cmp x ys)"
  using assms(2)
proof (induction ys)
  case Nil
  then show ?case by simp
next
  case (Cons y ys)
  show ?case
  proof (cases "cmp y x")
    case True
    then have "\<not> cmp x y" using assms(1) strict_weak_order_asym by metis
    then show ?thesis using True Cons by (auto simp: set_insert_by)
  next
    case False
    have "\<forall>z\<in>set ys. \<not> cmp z x"
      using False Cons.prems assms(1) strict_weak_order_negtrans by (metis sorted_wrt.simps(2))
    then show ?thesis using False Cons.prems by simp
  qed
qed

lemma insertion_Sort_contract: "Sort_contract insertion_Sort"
proof -
  have m: "mset (foldr (insert_by cmp) xs []) = mset xs" for cmp :: "'a \<Rightarrow> 'a \<Rightarrow> bool" and xs
    by (induction xs) (simp_all add: mset_insert_by)
  have s: "sorted_wrt (\<lambda>x y. \<not> cmp y x) (foldr (insert_by cmp) xs [])"
    if "strict_weak_order cmp" for cmp :: "'a \<Rightarrow> 'a \<Rightarrow> bool" and xs
    using that by (induction xs) (simp_all add: sorted_insert_by)
  show ?thesis
    unfolding Sort_contract_def insertion_Sort_def using m s by blast
qed

lemma greater_by_strict_weak_order:
  "strict_weak_order (\<lambda>x y. (f x :: 'a::linorder) > f y)"
  unfolding strict_weak_order_def by auto

lemma Sort_contract_upt:
  assumes "Sort_contract Sort" and "strict_weak_order cmp"
  shows "distinct (Sort cmp [0..<n])" and "set (Sort cmp [0..<n]) = {0..<n}"
    and "length (Sort cmp [0..<n]) = n"
proof -
  have m: "mset (Sort cmp [0..<n]) = mset [0..<n]"
    using assms unfolding Sort_contract_def by blast
  show "distinct (Sort cmp [0..<n])"
    using m by (metis distinct_upt mset_eq_imp_distinct_iff)
  show "set (Sort cmp [0..<n]) = {0..<n}"
    using m by (metis mset_eq_setD set_upt)
  show "length (Sort cmp [0..<n]) = n"
    using m by (metis mset_eq_length length_upt diff_zero)
qed

lemma bindE_eq_Inr: "bindE m f = Inr y \<longleftrightarrow> (\<exists>v. m = Inr v \<and> f v = Inr y)"
  by (cases m) simp_all

lemma shl1_eq_Inr: "shl1 d = Inr n \<longleftrightarrow> 0 \<le> d \<and> d < 32 \<and> n = 2 ^ nat d"
  by (auto simp: shl1_def)

lemma GetLeafIdToUpdate_selected:
  fixes ev :: "'a::{zero,plus,abs,linorder} TDocumentImportancesEvaluator"
  assumes "Sort_contract Sort" and "GetLeafIdToUpdate Sort ev treeId jacobian = Inr sel"
  shows "distinct sel" and "set sel \<subseteq> {0..<2 ^ nat (TreeSizes ev ! treeId)}"
        and "UpdateType (UpdateMethod ev) = AllPoints \<Longrightarrow> sel = [0..<2 ^ nat (TreeSizes ev ! treeId)]"
        and "TopSize (UpdateMethod ev) \<ge> 2 ^ nat (TreeSizes ev ! treeId) \<Longrightarrow> set sel = {0..<2 ^ nat (TreeSizes ev ! treeId)}"
proof -
  obtain lj where
    sel: "sel = (case UpdateType (UpdateMethod ev) of
            AllPoints \<Rightarrow> [0..<2 ^ nat (TreeSizes ev ! treeId)]
          | TopKLeaves \<Rightarrow>
              take (min (TopSize (UpdateMethod ev)) (2 ^ nat (TreeSizes ev ! treeId)))
                (Sort (\<lambda>x y. (lj ! x :: 'a) > lj ! y) [0..<2 ^ nat (TreeSizes ev ! treeId)]))"
    using assms(2)
    by (cases "UpdateType (UpdateMethod ev)")
      (auto simp: GetLeafIdToUpdate_def bindE_eq_Inr shl1_eq_Inr vec_at_def split: if_splits)
  let ?n = "2 ^ nat (TreeSizes ev ! treeId) :: nat"
  let ?s = "Sort (\<lambda>x y. lj ! x > lj ! y) [0..<?n]"
  have d: "distinct ?s" and s: "set ?s = {0..<?n}" and l: "length ?s = ?n"
    using Sort_contract_upt [OF assms(1) greater_by_strict_weak_order] by blast+
  show "distinct sel"
    using sel d by (cases "UpdateType (UpdateMethod ev)") simp_all
  show "set sel \<subseteq> {0..<?n}"
    using sel s set_take_subset [of "min (TopSize (UpdateMethod ev)) ?n" ?s]
    by (cases "UpdateType (UpdateMethod ev)") auto
  show "UpdateType (UpdateMethod ev) = AllPoints \<Longrightarrow> sel = [0..<?n]"
    using sel by simp
  show "TopSize (UpdateMethod ev) \<ge> ?n \<Longrightarrow> set sel = {0..<?n}"
    using sel s l by (cases "UpdateType (UpdateMethod ev)") (simp_all add: min_def)
qed


section \<open>The value of UpdateLeavesDerivativesForTree\<close>

lemma wf_evaluator_tree:
  assumes "wf_evaluator ev" and "t < TreeCount ev"
  shows "wf_tree (DocCount ev) (LeavesEstimationIterations ev) (TreeSizes ev ! t)
           (TreesStatistics ev ! t)"
    and "t < length (TreesStatistics ev)" and "t < length (TreeSizes ev)"
  using assms by (simp_all add: wf_evaluator_def)

lemma wf_tree_leaf:
  assumes "wf_tree n k d ts" and "r < n"
  shows "LeafIndices ts ! r < LeafCount ts"
proof -
  have "\<forall>l\<in>set (LeafIndices ts). l < LeafCount ts" and "length (LeafIndices ts) = n"
    using assms(1) unfolding wf_tree_def by blast+
  then show ?thesis
    using assms(2) nth_mem by blast
qed

lemma wf_tree_bucket:
  assumes "wf_tree n k d ts" and "L < LeafCount ts" and "doc \<in> set (LeavesDocId ts ! L)"
  shows "doc < n"
proof -
  have "\<forall>docs\<in>set (LeavesDocId ts). \<forall>d\<in>set docs. d < n"
    and "length (LeavesDocId ts) = LeafCount ts"
    using assms(1) unfolding wf_tree_def by blast+
  then show ?thesis
    using assms(2,3) nth_mem by metis
qed

lemma nonzero_denominators_nth:
  assumes "nonzero_denominators ev" and "t < length (TreesStatistics ev)"
    and "it < length (FormulaDenominators (TreesStatistics ev ! t))"
    and "L < length (FormulaDenominators (TreesStatistics ev ! t) ! it)"
  shows "FormulaDenominators (TreesStatistics ev ! t) ! it ! L \<noteq> 0"
  using assms unfolding nonzero_denominators_def by (meson nth_mem)

lemma UpdateLeavesDerivativesForTree_value:
  fixes ev :: "'a::{zero,plus,times,uminus,inverse} TDocumentImportancesEvaluator"
  assumes wf: "wf_evaluator ev"
    and t: "treeId < TreeCount ev" and it: "it < LeavesEstimationIterations ev"
    and r: "r < DocCount ev" and j: "length j = DocCount ev"
    and d: "distinct sel" and sub: "set sel \<subseteq> {0..<LeafCount (TreesStatistics ev ! treeId)}"
    and nz: "\<forall>L\<in>insert (LeafIndices (TreesStatistics ev ! treeId) ! r) (set sel).
               FormulaDenominators (TreesStatistics ev ! treeId) ! it ! L \<noteq> 0"
  shows "UpdateLeavesDerivativesForTree ev sel r j treeId it buf =
           Inr (map (leaf_derivative_value (TreesStatistics ev ! treeId)
                       (FormulaNumeratorMultiplier (TreesStatistics ev ! treeId) ! it)
                       (FormulaNumeratorAdding (TreesStatistics ev ! treeId) ! it)
                       (FormulaDenominators (TreesStatistics ev ! treeId) ! it)
                       (LearningRate ev) r j sel)
                  [0..<LeafCount (TreesStatistics ev ! treeId)])"
proof -
  let ?ts = "TreesStatistics ev ! treeId"
  let ?m = "FormulaNumeratorMultiplier ?ts ! it"
  let ?a = "FormulaNumeratorAdding ?ts ! it"
  let ?dn = "FormulaDenominators ?ts ! it"
  let ?rl = "LeafIndices ?ts ! r"
  let ?n = "LeafCount ?ts"
  have wt: "wf_tree (DocCount ev) (LeavesEstimationIterations ev) (TreeSizes ev ! treeId) ?ts"
    and tl: "treeId < length (TreesStatistics ev)"
    using wf_evaluator_tree [OF wf t] by blast+
  have len: "length (FormulaNumeratorMultiplier ?ts) = LeavesEstimationIterations ev"
    "length (FormulaNumeratorAdding ?ts) = LeavesEstimationIterations ev"
    "length (FormulaDenominators ?ts) = LeavesEstimationIterations ev"
    "length (LeafIndices ?ts) = DocCount ev" "length (LeavesDocId ?ts) = ?n"
    "length ?m = DocCount ev" "length ?a = DocCount ev" "length ?dn = ?n"
    using wt it by (simp_all add: wf_tree_def)
  have rl: "?rl < ?n"
    using wf_tree_leaf [OF wt r] .
  have docs: "\<forall>d\<in>set (LeavesDocId ?ts ! L). d < DocCount ev" if "L < ?n" for L
    using wf_tree_bucket [OF wt that] by blast
  have nzL: "?dn ! L \<noteq> 0" if "L \<in> set sel" for L
    using nz that by simp
  have loop: "loopE (leaf_step ?ts ?m ?a ?dn (LearningRate ev) r ?rl j) sel
                (replicate ?n 0, False) =
              Inr (map (\<lambda>L. if L \<in> set sel
                             then selected_leaf_value ?ts ?m ?a ?dn (LearningRate ev) r j L
                             else replicate ?n 0 ! L) [0..<length (replicate ?n (0::'a))],
                   False \<or> ?rl \<in> set sel)"
  proof (intro loopE_leaf_step d ballI)
    fix L assume "L \<in> set sel"
    then have L: "L < ?n" using sub by auto
    show "L < length (replicate ?n (0::'a)) \<and> replicate ?n (0::'a) ! L = 0 \<and>
          L < length (LeavesDocId ?ts) \<and>
          (\<forall>d\<in>set (LeavesDocId ?ts ! L). d < length ?m \<and> d < length j) \<and>
          (L = ?rl \<longrightarrow> r < length ?a) \<and> L < length ?dn \<and> ?dn ! L \<noteq> 0"
      using L docs [OF L] nzL [OF \<open>L \<in> set sel\<close>] len r j by simp
  qed
  let ?ld = "map (\<lambda>L. if L \<in> set sel
                       then selected_leaf_value ?ts ?m ?a ?dn (LearningRate ev) r j L
                       else replicate ?n 0 ! L) [0..<length (replicate ?n (0::'a))]"
  let ?res = "map (leaf_derivative_value ?ts ?m ?a ?dn (LearningRate ev) r j sel) [0..<?n]"
  have fin: "(if ?rl \<in> set sel then ?ld
              else ?ld[?rl := (?ld ! ?rl + j ! r * ?m ! r + ?a ! r)
                               * (- LearningRate ev / ?dn ! ?rl)]) = ?res"
    using rl by (auto simp: leaf_derivative_value_def correction_value_def
        list_eq_iff_nth_eq nth_list_update)
  have "UpdateLeavesDerivativesForTree ev sel r j treeId it buf =
          Inr (if ?rl \<in> set sel then ?ld
               else ?ld[?rl := (?ld ! ?rl + j ! r * ?m ! r + ?a ! r)
                                * (- LearningRate ev / ?dn ! ?rl)])"
    using tl it r len rl j nz
    by (simp add: UpdateLeavesDerivativesForTree_def loop del: replicate.simps)
  then show ?thesis
    using fin by simp
qed


section \<open>Selected leaves, correction and untouched leaves\<close>

lemma example_wf: "wf_evaluator example_evaluator"
  by code_simp

lemma example_nonzero: "nonzero_denominators example_evaluator"
  by code_simp

lemma example_selected:
  "GetLeafIdToUpdate insertion_Sort example_evaluator 1 [0, - (11 / 4), 0] = Inr [1]"
  by code_simp

lemma example_selected_first:
  "GetLeafIdToUpdate insertion_Sort example_evaluator 0 [0, 0, 0] = Inr [0]"
  by code_simp

lemma UpdateLeavesDerivativesForTree_selected_value:
  fixes ev :: "'a::{zero,plus,times,uminus,inverse,abs,linorder} TDocumentImportancesEvaluator"
  assumes wf: "wf_evaluator ev" and nz: "nonzero_denominators ev" and srt: "Sort_contract Sort"
    and t: "treeId < TreeCount ev" and it: "it < LeavesEstimationIterations ev"
    and r: "r < DocCount ev" and j: "length jacobian = DocCount ev"
    and sel: "GetLeafIdToUpdate Sort ev treeId jacobian = Inr sel"
  shows "UpdateLeavesDerivativesForTree ev sel r jacobian treeId it buf =
           Inr (map (leaf_derivative_value (TreesStatistics ev ! treeId)
                       (FormulaNumeratorMultiplier (TreesStatistics ev ! treeId) ! it)
                       (FormulaNumeratorAdding (TreesStatistics ev ! treeId) ! it)
                       (FormulaDenominators (TreesStatistics ev ! treeId) ! it)
                       (LearningRate ev) r jacobian sel)
                  [0..<LeafCount (TreesStatistics ev ! treeId)])"
    and "set sel \<subseteq> {0..<LeafCount (TreesStatistics ev ! treeId)}"
proof -
  let ?ts = "TreesStatistics ev ! treeId"
  have wt: "wf_tree (DocCount ev) (LeavesEstimationIterations ev) (TreeSizes ev ! treeId) ?ts"
    and tl: "treeId < length (TreesStatistics ev)"
    using wf_evaluator_tree [OF wf t] by blast+
  have n: "LeafCount ?ts = 2 ^ nat (TreeSizes ev ! treeId)"
    and dl: "length (FormulaDenominators ?ts) = LeavesEstimationIterations ev"
    and dr: "length (FormulaDenominators ?ts ! it) = LeafCount ?ts"
    using wt it by (simp_all add: wf_tree_def)
  show sub: "set sel \<subseteq> {0..<LeafCount ?ts}"
    using GetLeafIdToUpdate_selected(2) [OF srt sel] n by simp
  have "FormulaDenominators ?ts ! it ! L \<noteq> 0" if "L < LeafCount ?ts" for L
    using nonzero_denominators_nth [OF nz tl, of it L] that it dl dr by simp
  then have "\<forall>L\<in>insert (LeafIndices ?ts ! r) (set sel). FormulaDenominators ?ts ! it ! L \<noteq> 0"
    using sub wf_tree_leaf [OF wt r] by auto
  then show "UpdateLeavesDerivativesForTree ev sel r jacobian treeId it buf =
           Inr (map (leaf_derivative_value ?ts (FormulaNumeratorMultiplier ?ts ! it)
                       (FormulaNumeratorAdding ?ts ! it) (FormulaDenominators ?ts ! it)
                       (LearningRate ev) r jacobian sel) [0..<LeafCount ?ts])"
    using UpdateLeavesDerivativesForTree_value [OF wf t it r j GetLeafIdToUpdate_selected(1) [OF srt sel] sub]
    by blast
qed

text \<open>
  C2. For a removed document \<open>r\<close>, a tree, an iteration and a leaf \<open>L\<close> among the
  leaves \<open>GetLeafIdToUpdate\<close> selects for the current jacobian, the derivative
  \<open>UpdateLeavesDerivativesForTree\<close> stores at \<open>L\<close> is the sum over the documents
  \<open>doc\<close> of \<open>LeavesDocId[L]\<close> of \<open>FormulaNumeratorMultiplier[doc] * jacobian[doc]\<close>,
  plus \<open>FormulaNumeratorAdding[r]\<close> when the leaf of \<open>r\<close> is \<open>L\<close>, multiplied by
  \<open>-LearningRate / FormulaDenominators[L]\<close>.
\<close>

theorem selected_leaf_derivative:
  fixes ev :: "'a::{zero,plus,times,uminus,inverse,abs,linorder} TDocumentImportancesEvaluator"
  assumes "wf_evaluator ev" and "nonzero_denominators ev" and "Sort_contract Sort"
    and "treeId < TreeCount ev" and "it < LeavesEstimationIterations ev"
    and "r < DocCount ev" and "length jacobian = DocCount ev"
    and "GetLeafIdToUpdate Sort ev treeId jacobian = Inr leafIdToUpdate"
    and "L \<in> set leafIdToUpdate"
  shows "\<exists>ld. UpdateLeavesDerivativesForTree ev leafIdToUpdate r jacobian treeId it buf = Inr ld \<and>
           ld ! L =
             (let ts = TreesStatistics ev ! treeId;
                  s = running_sum
                        (map (\<lambda>doc. FormulaNumeratorMultiplier ts ! it ! doc * jacobian ! doc)
                           (LeavesDocId ts ! L))
              in (if L = LeafIndices ts ! r then s + FormulaNumeratorAdding ts ! it ! r else s)
                 * (- LearningRate ev / FormulaDenominators ts ! it ! L))"
proof -
  note v = UpdateLeavesDerivativesForTree_selected_value(1) [OF assms(1-8), of buf]
  have "L < LeafCount (TreesStatistics ev ! treeId)"
    using UpdateLeavesDerivativesForTree_selected_value(2) [OF assms(1-8)] assms(9) by auto
  then show ?thesis
    using assms(9) by (simp add: v leaf_derivative_value_def selected_leaf_value_def Let_def)
qed

theorem selected_leaf_derivative_witness:
  "\<exists>ld. UpdateLeavesDerivativesForTree example_evaluator [1] 1 [0, - (11 / 4), 0] 1 0 [] = Inr ld \<and>
         ld ! 1 = - (11 / 16)"
proof -
  have "\<exists>ld. UpdateLeavesDerivativesForTree example_evaluator [1] 1 [0, - (11 / 4), 0] 1 0 [] = Inr ld \<and>
           ld ! 1 =
             (let ts = TreesStatistics example_evaluator ! 1;
                  s = running_sum
                        (map (\<lambda>doc. FormulaNumeratorMultiplier ts ! 0 ! doc * [0, - (11 / 4), 0] ! doc)
                           (LeavesDocId ts ! 1))
              in (if 1 = LeafIndices ts ! 1 then s + FormulaNumeratorAdding ts ! 0 ! 1 else s)
                 * (- LearningRate example_evaluator / FormulaDenominators ts ! 0 ! 1))"
    by (rule selected_leaf_derivative [OF example_wf example_nonzero insertion_Sort_contract _ _ _ _ example_selected])
      (simp_all add: example_evaluator_def)
  moreover have "(let ts = TreesStatistics example_evaluator ! 1;
                  s = running_sum
                        (map (\<lambda>doc. FormulaNumeratorMultiplier ts ! 0 ! doc * [0, - (11 / 4), 0] ! doc)
                           (LeavesDocId ts ! 1))
              in (if 1 = LeafIndices ts ! 1 then s + FormulaNumeratorAdding ts ! 0 ! 1 else s)
                 * (- LearningRate example_evaluator / FormulaDenominators ts ! 0 ! 1)) = (- (11 / 16) :: real)"
    by (simp add: example_evaluator_def example_tree_def running_sum_def)
  ultimately show ?thesis by simp
qed


text \<open>
  C3. When the leaf of the removed document \<open>r\<close> is not among the leaves
  \<open>GetLeafIdToUpdate\<close> selects (which happens under \<^verbatim>\<open>TopKLeaves\<close>, for one with
  \<^verbatim>\<open>TopSize = 1\<close> and another leaf ranked first), \<open>UpdateLeavesDerivativesForTree\<close>
  still stores a derivative at that leaf. The code adds
  \<open>jacobian[r] * FormulaNumeratorMultiplier[r]\<close> and \<open>FormulaNumeratorAdding[r]\<close> to the
  zero the buffer holds there and multiplies by
  \<open>-LearningRate / FormulaDenominators[leaf of r]\<close>; where adding to zero changes
  nothing, the derivative is
  \<open>(jacobian[r] * FormulaNumeratorMultiplier[r] + FormulaNumeratorAdding[r])\<close> times
  that scale.
\<close>

theorem removed_document_leaf_correction:
  fixes ev :: "'a::{zero,plus,times,uminus,inverse,abs,linorder} TDocumentImportancesEvaluator"
  assumes "wf_evaluator ev" and "nonzero_denominators ev" and "Sort_contract Sort"
    and "treeId < TreeCount ev" and "it < LeavesEstimationIterations ev"
    and "r < DocCount ev" and "length jacobian = DocCount ev"
    and "GetLeafIdToUpdate Sort ev treeId jacobian = Inr leafIdToUpdate"
    and "LeafIndices (TreesStatistics ev ! treeId) ! r \<notin> set leafIdToUpdate"
  shows "\<exists>ld. UpdateLeavesDerivativesForTree ev leafIdToUpdate r jacobian treeId it buf = Inr ld \<and>
           (let ts = TreesStatistics ev ! treeId;
                x = jacobian ! r * FormulaNumeratorMultiplier ts ! it ! r;
                scale = - LearningRate ev / FormulaDenominators ts ! it ! (LeafIndices ts ! r)
            in ld ! (LeafIndices ts ! r) = (0 + x + FormulaNumeratorAdding ts ! it ! r) * scale \<and>
               (0 + x = x \<longrightarrow>
                ld ! (LeafIndices ts ! r) = (x + FormulaNumeratorAdding ts ! it ! r) * scale))"
proof -
  note v = UpdateLeavesDerivativesForTree_selected_value(1) [OF assms(1-8), of buf]
  have "LeafIndices (TreesStatistics ev ! treeId) ! r < LeafCount (TreesStatistics ev ! treeId)"
    using wf_tree_leaf [OF wf_evaluator_tree(1) [OF assms(1,4)] assms(6)] .
  then show ?thesis
    using assms(9) by (simp add: v leaf_derivative_value_def correction_value_def Let_def)
qed

lemma example_selected_other:
  "GetLeafIdToUpdate insertion_Sort example_evaluator 0 [5, 1, 0] = Inr [0]"
  by code_simp

theorem removed_document_leaf_correction_witness:
  "GetLeafIdToUpdate insertion_Sort example_evaluator 0 [5, 1, 0] = Inr [0] \<and>
   LeafIndices (TreesStatistics example_evaluator ! 0) ! 1 = 1 \<and>
   (\<exists>ld. UpdateLeavesDerivativesForTree example_evaluator [0] 1 [5, 1, 0] 0 0 [] = Inr ld \<and>
         ld ! 1 = (1 * 3 + 11) * - (1 / 4))"
proof -
  have leaf: "LeafIndices (TreesStatistics example_evaluator ! 0) ! 1 = 1"
    by (simp add: example_evaluator_def example_tree_def)
  have "\<exists>ld. UpdateLeavesDerivativesForTree example_evaluator [0] 1 [5, 1, 0] 0 0 [] = Inr ld \<and>
           (let ts = TreesStatistics example_evaluator ! 0;
                x = [5, 1, 0] ! 1 * FormulaNumeratorMultiplier ts ! 0 ! 1;
                scale = - LearningRate example_evaluator
                          / FormulaDenominators ts ! 0 ! (LeafIndices ts ! 1)
            in ld ! (LeafIndices ts ! 1) = (0 + x + FormulaNumeratorAdding ts ! 0 ! 1) * scale \<and>
               (0 + x = x \<longrightarrow>
                ld ! (LeafIndices ts ! 1) = (x + FormulaNumeratorAdding ts ! 0 ! 1) * scale))"
    by (rule removed_document_leaf_correction
          [OF example_wf example_nonzero insertion_Sort_contract _ _ _ _ example_selected_other])
      (simp_all add: example_evaluator_def example_tree_def)
  then show ?thesis
    using example_selected_other leaf
    by (simp add: example_evaluator_def example_tree_def Let_def)
qed

text \<open>
  C9. The vector \<open>UpdateLeavesDerivativesForTree\<close> returns has one entry per leaf of
  the tree, whatever the buffer held before, and is zero at every leaf that is
  neither selected nor the leaf of the removed document.
\<close>

theorem unselected_leaves_zero:
  fixes ev :: "'a::{zero,plus,times,uminus,inverse,abs,linorder} TDocumentImportancesEvaluator"
  assumes "wf_evaluator ev" and "nonzero_denominators ev" and "Sort_contract Sort"
    and "treeId < TreeCount ev" and "it < LeavesEstimationIterations ev"
    and "r < DocCount ev" and "length jacobian = DocCount ev"
    and "GetLeafIdToUpdate Sort ev treeId jacobian = Inr leafIdToUpdate"
  shows "\<exists>ld. UpdateLeavesDerivativesForTree ev leafIdToUpdate r jacobian treeId it buf = Inr ld \<and>
           length ld = LeafCount (TreesStatistics ev ! treeId) \<and>
           (\<forall>L<LeafCount (TreesStatistics ev ! treeId).
              L \<notin> set leafIdToUpdate \<and> L \<noteq> LeafIndices (TreesStatistics ev ! treeId) ! r \<longrightarrow>
              ld ! L = 0)"
  by (simp add: UpdateLeavesDerivativesForTree_selected_value(1) [OF assms, of buf]
      leaf_derivative_value_def)

theorem unselected_leaves_zero_witness:
  "GetLeafIdToUpdate insertion_Sort example_evaluator 0 [0, 0, 0] = Inr [0] \<and>
   LeafIndices (TreesStatistics example_evaluator ! 0) ! 0 = 0 \<and>
   (\<exists>ld. UpdateLeavesDerivativesForTree example_evaluator [0] 0 [0, 0, 0] 0 0 [5, 5, 5] = Inr ld \<and>
         length ld = 2 \<and> ld ! 1 = 0)"
proof -
  have "\<exists>ld. UpdateLeavesDerivativesForTree example_evaluator [0] 0 [0, 0, 0] 0 0 [5, 5, 5] = Inr ld \<and>
           length ld = LeafCount (TreesStatistics example_evaluator ! 0) \<and>
           (\<forall>L<LeafCount (TreesStatistics example_evaluator ! 0).
              L \<notin> set [0] \<and> L \<noteq> LeafIndices (TreesStatistics example_evaluator ! 0) ! 0 \<longrightarrow>
              ld ! L = 0)"
    by (rule unselected_leaves_zero
          [OF example_wf example_nonzero insertion_Sort_contract _ _ _ _ example_selected_first])
      (simp_all add: example_evaluator_def)
  then obtain ld where
    "UpdateLeavesDerivativesForTree example_evaluator [0] 0 [0, 0, 0] 0 0 [5, 5, 5] = Inr ld"
    "length ld = 2" "\<forall>L<2. L \<notin> set [0] \<and> L \<noteq> 0 \<longrightarrow> ld ! L = 0"
    by (auto simp: example_evaluator_def example_tree_def)
  moreover from this(3) have "ld ! 1 = 0" by simp
  ultimately show ?thesis
    using example_selected_first by (simp add: example_evaluator_def example_tree_def)
qed

text \<open>
  C10. The direct term \<open>FormulaNumeratorAdding[r]\<close> enters the derivative of the leaf
  of the removed document \<open>r\<close> exactly once: the entry is \<open>(x + FormulaNumeratorAdding[r])\<close>
  times the scale, where \<open>x\<close> is the sum over the leaf's documents when the leaf is
  selected (the loop's branch) and \<open>0 + jacobian[r] * FormulaNumeratorMultiplier[r]\<close>
  when it is not (the correction), and no other case exists.
\<close>

theorem direct_term_added_once:
  fixes ev :: "'a::{zero,plus,times,uminus,inverse,abs,linorder} TDocumentImportancesEvaluator"
  assumes "wf_evaluator ev" and "nonzero_denominators ev" and "Sort_contract Sort"
    and "treeId < TreeCount ev" and "it < LeavesEstimationIterations ev"
    and "r < DocCount ev" and "length jacobian = DocCount ev"
    and "GetLeafIdToUpdate Sort ev treeId jacobian = Inr leafIdToUpdate"
  shows "\<exists>ld. UpdateLeavesDerivativesForTree ev leafIdToUpdate r jacobian treeId it buf = Inr ld \<and>
           ld ! (LeafIndices (TreesStatistics ev ! treeId) ! r) =
             (let ts = TreesStatistics ev ! treeId;
                  leaf = LeafIndices ts ! r;
                  x = (if leaf \<in> set leafIdToUpdate
                       then running_sum
                              (map (\<lambda>doc. FormulaNumeratorMultiplier ts ! it ! doc * jacobian ! doc)
                                 (LeavesDocId ts ! leaf))
                       else 0 + jacobian ! r * FormulaNumeratorMultiplier ts ! it ! r)
              in (x + FormulaNumeratorAdding ts ! it ! r)
                 * (- LearningRate ev / FormulaDenominators ts ! it ! leaf))"
proof -
  note v = UpdateLeavesDerivativesForTree_selected_value(1) [OF assms(1-8), of buf]
  have "LeafIndices (TreesStatistics ev ! treeId) ! r < LeafCount (TreesStatistics ev ! treeId)"
    using wf_tree_leaf [OF wf_evaluator_tree(1) [OF assms(1,4)] assms(6)] .
  then show ?thesis
    by (simp add: v leaf_derivative_value_def correction_value_def selected_leaf_value_def Let_def)
qed

lemma example_selected_second:
  "GetLeafIdToUpdate insertion_Sort example_evaluator 1 [0, 0, - (13 / 4)] = Inr [1]"
  by code_simp

theorem direct_term_added_once_witness:
  "\<exists>ld. UpdateLeavesDerivativesForTree example_evaluator [1] 2 [0, 0, - (13 / 4)] 1 0 [] = Inr ld \<and>
         ld ! 1 = (5 * - (13 / 4) + 13) * - (1 / 4)"
proof -
  have "\<exists>ld. UpdateLeavesDerivativesForTree example_evaluator [1] 2 [0, 0, - (13 / 4)] 1 0 [] = Inr ld \<and>
           ld ! (LeafIndices (TreesStatistics example_evaluator ! 1) ! 2) =
             (let ts = TreesStatistics example_evaluator ! 1;
                  leaf = LeafIndices ts ! 2;
                  x = (if leaf \<in> set [1]
                       then running_sum
                              (map (\<lambda>doc. FormulaNumeratorMultiplier ts ! 0 ! doc * [0, 0, - (13 / 4)] ! doc)
                                 (LeavesDocId ts ! leaf))
                       else 0 + [0, 0, - (13 / 4)] ! 2 * FormulaNumeratorMultiplier ts ! 0 ! 2)
              in (x + FormulaNumeratorAdding ts ! 0 ! 2)
                 * (- LearningRate example_evaluator / FormulaDenominators ts ! 0 ! leaf))"
    by (rule direct_term_added_once
          [OF example_wf example_nonzero insertion_Sort_contract _ _ _ _ example_selected_second])
      (simp_all add: example_evaluator_def)
  then show ?thesis
    by (simp add: example_evaluator_def example_tree_def running_sum_def)
qed


section \<open>Zero denominators\<close>

lemma loopE_append:
  "loopE body (xs @ ys) s = bindE (loopE body xs s) (loopE body ys)"
  by (induction xs arbitrary: s) (simp_all add: bindE_def split: sum.splits)

lemma fdiv_zero [simp]: "fdiv a 0 = Inl DivisionByZero"
  by (simp add: fdiv_def)

lemma leaf_step_zero:
  assumes "L < length ld" and "L < length (LeavesDocId ts)"
    and "\<forall>d\<in>set (LeavesDocId ts ! L). d < length m \<and> d < length j"
    and "L = LeafIndices ts ! r \<longrightarrow> r < length a"
    and "L < length dn" and "dn ! L = 0"
  shows "leaf_step ts m a dn lr r (LeafIndices ts ! r) j L (ld, u) = Inl DivisionByZero"
  using assms by (simp add: leaf_step_def loopE_numerator_step)

lemma UpdateLeavesDerivativesForTree_zero:
  fixes ev :: "'a::{zero,plus,times,uminus,inverse} TDocumentImportancesEvaluator"
  assumes wf: "wf_evaluator ev"
    and t: "treeId < TreeCount ev" and it: "it < LeavesEstimationIterations ev"
    and r: "r < DocCount ev" and j: "length j = DocCount ev"
    and d: "distinct sel" and sub: "set sel \<subseteq> {0..<LeafCount (TreesStatistics ev ! treeId)}"
    and z: "\<exists>L\<in>insert (LeafIndices (TreesStatistics ev ! treeId) ! r) (set sel).
               FormulaDenominators (TreesStatistics ev ! treeId) ! it ! L = 0"
  shows "UpdateLeavesDerivativesForTree ev sel r j treeId it buf = Inl DivisionByZero"
proof -
  let ?ts = "TreesStatistics ev ! treeId"
  let ?m = "FormulaNumeratorMultiplier ?ts ! it"
  let ?a = "FormulaNumeratorAdding ?ts ! it"
  let ?dn = "FormulaDenominators ?ts ! it"
  let ?rl = "LeafIndices ?ts ! r"
  let ?n = "LeafCount ?ts"
  let ?body = "leaf_step ?ts ?m ?a ?dn (LearningRate ev) r ?rl j"
  have wt: "wf_tree (DocCount ev) (LeavesEstimationIterations ev) (TreeSizes ev ! treeId) ?ts"
    and tl: "treeId < length (TreesStatistics ev)"
    using wf_evaluator_tree [OF wf t] by blast+
  have len: "length (FormulaNumeratorMultiplier ?ts) = LeavesEstimationIterations ev"
    "length (FormulaNumeratorAdding ?ts) = LeavesEstimationIterations ev"
    "length (FormulaDenominators ?ts) = LeavesEstimationIterations ev"
    "length (LeafIndices ?ts) = DocCount ev" "length (LeavesDocId ?ts) = ?n"
    "length ?m = DocCount ev" "length ?a = DocCount ev" "length ?dn = ?n"
    using wt it by (simp_all add: wf_tree_def)
  have rl: "?rl < ?n"
    using wf_tree_leaf [OF wt r] .
  have docs: "\<forall>d\<in>set (LeavesDocId ?ts ! L). d < DocCount ev" if "L < ?n" for L
    using wf_tree_bucket [OF wt that] by blast
  have pre: "L < length ld \<and> ld ! L = 0 \<and> L < length (LeavesDocId ?ts) \<and>
          (\<forall>d\<in>set (LeavesDocId ?ts ! L). d < length ?m \<and> d < length j) \<and>
          (L = ?rl \<longrightarrow> r < length ?a) \<and> L < length ?dn \<and> ?dn ! L \<noteq> 0"
    if "L < ?n" "?dn ! L \<noteq> 0" "length ld = ?n" "ld ! L = 0" for L and ld :: "'a list"
    using that docs [OF that(1)] len r j by simp
  show ?thesis
  proof (cases "\<exists>L\<in>set sel. ?dn ! L = 0")
    case True
    then obtain xs x ys where split: "sel = xs @ x # ys" and x0: "?dn ! x = 0"
      and xs: "\<forall>y\<in>set xs. ?dn ! y \<noteq> 0"
      using split_list_first_prop [of sel "\<lambda>L. ?dn ! L = 0"] by blast
    have x: "x < ?n" and xsn: "\<forall>y\<in>set xs. y < ?n" and dxs: "distinct xs"
      using sub d split by auto
    have first: "loopE ?body xs (replicate ?n 0, False) =
        Inr (map (\<lambda>L. if L \<in> set xs
                       then selected_leaf_value ?ts ?m ?a ?dn (LearningRate ev) r j L
                       else replicate ?n 0 ! L) [0..<length (replicate ?n (0::'a))],
             False \<or> ?rl \<in> set xs)"
    proof (intro loopE_leaf_step dxs ballI)
      fix L assume "L \<in> set xs"
      then show "L < length (replicate ?n (0::'a)) \<and> replicate ?n (0::'a) ! L = 0 \<and>
          L < length (LeavesDocId ?ts) \<and>
          (\<forall>d\<in>set (LeavesDocId ?ts ! L). d < length ?m \<and> d < length j) \<and>
          (L = ?rl \<longrightarrow> r < length ?a) \<and> L < length ?dn \<and> ?dn ! L \<noteq> 0"
        using pre [of L "replicate ?n 0"] xs xsn by simp
    qed
    have "loopE ?body (x # ys) (ld, u) = Inl DivisionByZero" if "length ld = ?n" for ld u
      using leaf_step_zero [of x ld ?ts ?m j r ?a ?dn "LearningRate ev" u] x x0 that
        docs [OF x] len r j by simp
    then have "loopE ?body sel (replicate ?n 0, False) = Inl DivisionByZero"
      unfolding split loopE_append first by simp
    then show ?thesis
      using tl it r len by (simp add: UpdateLeavesDerivativesForTree_def)
  next
    case False
    then have rz: "?dn ! ?rl = 0" and rn: "?rl \<notin> set sel"
      using z by auto
    have loop: "loopE ?body sel (replicate ?n 0, False) =
        Inr (map (\<lambda>L. if L \<in> set sel
                       then selected_leaf_value ?ts ?m ?a ?dn (LearningRate ev) r j L
                       else replicate ?n 0 ! L) [0..<length (replicate ?n (0::'a))],
             False \<or> ?rl \<in> set sel)"
    proof (intro loopE_leaf_step d ballI)
      fix L assume "L \<in> set sel"
      then show "L < length (replicate ?n (0::'a)) \<and> replicate ?n (0::'a) ! L = 0 \<and>
          L < length (LeavesDocId ?ts) \<and>
          (\<forall>d\<in>set (LeavesDocId ?ts ! L). d < length ?m \<and> d < length j) \<and>
          (L = ?rl \<longrightarrow> r < length ?a) \<and> L < length ?dn \<and> ?dn ! L \<noteq> 0"
        using pre [of L "replicate ?n 0"] False sub by auto
    qed
    show ?thesis
      using tl it r len rl j rz rn
      by (simp add: UpdateLeavesDerivativesForTree_def loop del: replicate.simps)
  qed
qed


lemma degenerate_wf: "wf_evaluator degenerate_evaluator"
  by code_simp

lemma degenerate_selected:
  "GetLeafIdToUpdate insertion_Sort degenerate_evaluator 0 [0, 0, 0] = Inr [0]"
  by code_simp

text \<open>
  C8. \<open>UpdateLeavesDerivativesForTree\<close> divides by the entries of
  \<open>FormulaDenominators\<close> at the selected leaves and, when the correction runs, at
  the leaf of the removed document, and by nothing else. On well-formed tables
  it returns a vector when all of these entries are nonzero, whatever the other
  entries are; and it divides by zero as soon as one of them is zero, since no
  guard stands before the division.
\<close>

theorem leaf_derivative_divisions:
  fixes ev :: "'a::{zero,plus,times,uminus,inverse,abs,linorder} TDocumentImportancesEvaluator"
  assumes "wf_evaluator ev" and "Sort_contract Sort"
    and "treeId < TreeCount ev" and "it < LeavesEstimationIterations ev"
    and "r < DocCount ev" and "length jacobian = DocCount ev"
    and "GetLeafIdToUpdate Sort ev treeId jacobian = Inr leafIdToUpdate"
  shows "((\<forall>L\<in>insert (LeafIndices (TreesStatistics ev ! treeId) ! r) (set leafIdToUpdate).
             FormulaDenominators (TreesStatistics ev ! treeId) ! it ! L \<noteq> 0) \<longrightarrow>
          (\<exists>ld. UpdateLeavesDerivativesForTree ev leafIdToUpdate r jacobian treeId it buf = Inr ld)) \<and>
         ((\<exists>L\<in>insert (LeafIndices (TreesStatistics ev ! treeId) ! r) (set leafIdToUpdate).
             FormulaDenominators (TreesStatistics ev ! treeId) ! it ! L = 0) \<longrightarrow>
          UpdateLeavesDerivativesForTree ev leafIdToUpdate r jacobian treeId it buf =
            Inl DivisionByZero)"
proof -
  let ?ts = "TreesStatistics ev ! treeId"
  have wt: "wf_tree (DocCount ev) (LeavesEstimationIterations ev) (TreeSizes ev ! treeId) ?ts"
    using wf_evaluator_tree(1) [OF assms(1,3)] .
  then have n: "LeafCount ?ts = 2 ^ nat (TreeSizes ev ! treeId)"
    by (simp add: wf_tree_def)
  have d: "distinct leafIdToUpdate"
    using GetLeafIdToUpdate_selected(1) [OF assms(2,7)] .
  have sub: "set leafIdToUpdate \<subseteq> {0..<LeafCount ?ts}"
    using GetLeafIdToUpdate_selected(2) [OF assms(2,7)] n by simp
  show ?thesis
    using UpdateLeavesDerivativesForTree_value [OF assms(1,3-6) d sub, of buf]
      UpdateLeavesDerivativesForTree_zero [OF assms(1,3-6) d sub, of buf]
    by blast
qed

theorem leaf_derivative_divisions_witness:
  "(\<exists>ld. UpdateLeavesDerivativesForTree degenerate_evaluator [0] 0 [0, 0, 0] 0 0 [] = Inr ld) \<and>
   UpdateLeavesDerivativesForTree degenerate_evaluator [0] 1 [0, 0, 0] 0 0 [] = Inl DivisionByZero"
proof -
  have t: "(0::nat) < TreeCount degenerate_evaluator"
    and it: "(0::nat) < LeavesEstimationIterations degenerate_evaluator"
    and r0: "(0::nat) < DocCount degenerate_evaluator"
    and r1: "(1::nat) < DocCount degenerate_evaluator"
    and j: "length [0, 0, 0 :: real] = DocCount degenerate_evaluator"
    by (simp_all add: degenerate_evaluator_def example_evaluator_def)
  have "\<exists>ld. UpdateLeavesDerivativesForTree degenerate_evaluator [0] 0 [0, 0, 0] 0 0 [] = Inr ld"
    using leaf_derivative_divisions
      [OF degenerate_wf insertion_Sort_contract t it r0 j degenerate_selected, of "[]"]
    by (simp add: degenerate_evaluator_def example_evaluator_def example_tree_def)
  moreover have
    "UpdateLeavesDerivativesForTree degenerate_evaluator [0] 1 [0, 0, 0] 0 0 [] = Inl DivisionByZero"
    using leaf_derivative_divisions
      [OF degenerate_wf insertion_Sort_contract t it r1 j degenerate_selected, of "[]"]
    by (simp add: degenerate_evaluator_def example_evaluator_def example_tree_def)
  ultimately show ?thesis by simp
qed


section \<open>The ranking of TopKLeaves\<close>

lemma loopE_leafJacobians_step:
  assumes "\<forall>d\<in>set docs. d < length li \<and> d < length jac \<and> li ! d < length lj"
  shows "loopE (leafJacobians_step li jac) docs lj =
           Inr (map (\<lambda>L. foldl (+) (lj ! L)
                            (map (\<lambda>doc. abs (jac ! doc)) (filter (\<lambda>doc. li ! doc = L) docs)))
                  [0..<length lj])"
  using assms
proof (induction docs arbitrary: lj)
  case Nil
  then show ?case by (simp add: map_nth)
next
  case (Cons d docs)
  let ?lj1 = "lj[li ! d := lj ! (li ! d) + abs (jac ! d)]"
  have step: "leafJacobians_step li jac d lj = Inr ?lj1"
    using Cons.prems by (simp add: leafJacobians_step_def)
  have rest: "loopE (leafJacobians_step li jac) docs ?lj1 =
           Inr (map (\<lambda>L. foldl (+) (?lj1 ! L)
                            (map (\<lambda>doc. abs (jac ! doc)) (filter (\<lambda>doc. li ! doc = L) docs)))
                  [0..<length ?lj1])"
    using Cons.prems by (intro Cons.IH) simp
  have same: "map (\<lambda>L. foldl (+) (?lj1 ! L)
                   (map (\<lambda>doc. abs (jac ! doc)) (filter (\<lambda>doc. li ! doc = L) docs)))
                [0..<length ?lj1] =
              map (\<lambda>L. foldl (+) (lj ! L)
                   (map (\<lambda>doc. abs (jac ! doc)) (filter (\<lambda>doc. li ! doc = L) (d # docs))))
                [0..<length lj]"
    by (auto simp: nth_list_update)
  show ?case
    using step rest same by simp
qed

lemma GetLeafIdToUpdate_TopKLeaves:
  fixes ev :: "'a::{zero,plus,abs,ord} TDocumentImportancesEvaluator"
  assumes wf: "wf_evaluator ev" and t: "treeId < TreeCount ev"
    and j: "length jacobian = DocCount ev"
    and k: "UpdateType (UpdateMethod ev) = TopKLeaves"
  shows "GetLeafIdToUpdate Sort ev treeId jacobian =
           Inr (take (min (TopSize (UpdateMethod ev)) (LeafCount (TreesStatistics ev ! treeId)))
                  (Sort (\<lambda>x y. map (leaf_mass (LeafIndices (TreesStatistics ev ! treeId))
                                      jacobian (DocCount ev))
                                  [0..<LeafCount (TreesStatistics ev ! treeId)] ! x
                                > map (leaf_mass (LeafIndices (TreesStatistics ev ! treeId))
                                        jacobian (DocCount ev))
                                    [0..<LeafCount (TreesStatistics ev ! treeId)] ! y)
                     [0..<LeafCount (TreesStatistics ev ! treeId)]))"
proof -
  let ?ts = "TreesStatistics ev ! treeId"
  have wt: "wf_tree (DocCount ev) (LeavesEstimationIterations ev) (TreeSizes ev ! treeId) ?ts"
    and tl: "treeId < length (TreesStatistics ev)" "treeId < length (TreeSizes ev)"
    using wf_evaluator_tree [OF wf t] by blast+
  have n: "shl1 (TreeSizes ev ! treeId) = Inr (LeafCount ?ts)"
    and li: "length (LeafIndices ?ts) = DocCount ev"
    using wt by (simp_all add: wf_tree_def shl1_def)
  have "loopE (leafJacobians_step (LeafIndices ?ts) jacobian) [0..<DocCount ev]
          (replicate (LeafCount ?ts) 0) =
        Inr (map (\<lambda>L. foldl (+) (replicate (LeafCount ?ts) 0 ! L)
                         (map (\<lambda>doc. abs (jacobian ! doc))
                            (filter (\<lambda>doc. LeafIndices ?ts ! doc = L) [0..<DocCount ev])))
               [0..<length (replicate (LeafCount ?ts) (0::'a))])"
    using li j wf_tree_leaf [OF wt] by (intro loopE_leafJacobians_step) simp
  also have "map (\<lambda>L. foldl (+) (replicate (LeafCount ?ts) 0 ! L)
                         (map (\<lambda>doc. abs (jacobian ! doc))
                            (filter (\<lambda>doc. LeafIndices ?ts ! doc = L) [0..<DocCount ev])))
               [0..<length (replicate (LeafCount ?ts) (0::'a))] =
             map (leaf_mass (LeafIndices ?ts) jacobian (DocCount ev)) [0..<LeafCount ?ts]"
    by (simp add: leaf_mass_def running_sum_def)
  finally show ?thesis
    using tl n k by (simp add: GetLeafIdToUpdate_def)
qed




section \<open>The update of the jacobian\<close>

lemma loopE_jacobian_doc_step:
  assumes "distinct docs" and "L < length ld" and "\<forall>d\<in>set docs. d < length jac"
  shows "loopE (jacobian_doc_step ld L) docs jac =
           Inr (map (\<lambda>d. if d \<in> set docs then jac ! d + ld ! L else jac ! d) [0..<length jac])"
  using assms
proof (induction docs arbitrary: jac)
  case Nil
  then show ?case by (simp add: map_nth)
next
  case (Cons x docs)
  let ?jac1 = "jac[x := jac ! x + ld ! L]"
  have step: "jacobian_doc_step ld L x jac = Inr ?jac1"
    using Cons.prems by (simp add: jacobian_doc_step_def)
  have rest: "loopE (jacobian_doc_step ld L) docs ?jac1 =
           Inr (map (\<lambda>d. if d \<in> set docs then ?jac1 ! d + ld ! L else ?jac1 ! d)
                  [0..<length ?jac1])"
    using Cons.prems by (intro Cons.IH) simp_all
  have same: "map (\<lambda>d. if d \<in> set docs then ?jac1 ! d + ld ! L else ?jac1 ! d)
                  [0..<length ?jac1] =
              map (\<lambda>d. if d \<in> set (x # docs) then jac ! d + ld ! L else jac ! d)
                  [0..<length jac]"
    using Cons.prems by (auto simp: nth_list_update)
  show ?case
    using step rest same by simp
qed

lemma buckets_partition_mem:
  assumes "buckets_partition n ts" and "L < LeafCount ts" and "d < n"
  shows "d \<in> set (LeavesDocId ts ! L) \<longleftrightarrow> LeafIndices ts ! d = L"
  using assms by (simp add: buckets_partition_def)

lemma buckets_partition_distinct:
  assumes "buckets_partition n ts" and "L < LeafCount ts"
  shows "distinct (LeavesDocId ts ! L)"
  using assms by (simp add: buckets_partition_def)

lemma loopE_jacobian_leaf_step:
  assumes wt: "wf_tree n k depth ts" and bp: "buckets_partition n ts"
    and r: "r < n" and ld: "length ld = LeafCount ts"
    and "distinct sel" and "set sel \<subseteq> {0..<LeafCount ts}" and "length jac = n"
  shows "loopE (jacobian_leaf_step ts r ld) sel (jac, u) =
           Inr (map (\<lambda>d. if LeafIndices ts ! d \<in> set sel
                          then jac ! d + ld ! (LeafIndices ts ! d) else jac ! d) [0..<n],
                u \<or> LeafIndices ts ! r \<in> set sel)"
  using assms(5-)
proof (induction sel arbitrary: jac u)
  case Nil
  then show ?case by (auto simp: map_nth)
next
  case (Cons x xs)
  have x: "x < LeafCount ts" using Cons.prems by simp
  have li: "length (LeafIndices ts) = n" and ldi: "length (LeavesDocId ts) = LeafCount ts"
    using wt by (simp_all add: wf_tree_def)
  let ?jac1 = "map (\<lambda>d. if LeafIndices ts ! d = x then jac ! d + ld ! x else jac ! d) [0..<n]"
  have "loopE (jacobian_doc_step ld x) (LeavesDocId ts ! x) jac =
          Inr (map (\<lambda>d. if d \<in> set (LeavesDocId ts ! x) then jac ! d + ld ! x else jac ! d)
                 [0..<length jac])"
    using buckets_partition_distinct [OF bp x] wf_tree_bucket [OF wt x] x ld Cons.prems
    by (intro loopE_jacobian_doc_step) auto
  also have "map (\<lambda>d. if d \<in> set (LeavesDocId ts ! x) then jac ! d + ld ! x else jac ! d)
                 [0..<length jac] = ?jac1"
    using buckets_partition_mem [OF bp x] Cons.prems by simp
  finally have step: "jacobian_leaf_step ts r ld x (jac, u) =
      Inr (?jac1, u \<or> LeafIndices ts ! r = x)"
    using x ldi li r by (simp add: jacobian_leaf_step_def)
  have rest: "loopE (jacobian_leaf_step ts r ld) xs (?jac1, u \<or> LeafIndices ts ! r = x) =
      Inr (map (\<lambda>d. if LeafIndices ts ! d \<in> set xs
                     then ?jac1 ! d + ld ! (LeafIndices ts ! d) else ?jac1 ! d) [0..<n],
           (u \<or> LeafIndices ts ! r = x) \<or> LeafIndices ts ! r \<in> set xs)"
    using Cons.prems by (intro Cons.IH) simp_all
  have same: "map (\<lambda>d. if LeafIndices ts ! d \<in> set xs
                     then ?jac1 ! d + ld ! (LeafIndices ts ! d) else ?jac1 ! d) [0..<n] =
              map (\<lambda>d. if LeafIndices ts ! d \<in> set (x # xs)
                     then jac ! d + ld ! (LeafIndices ts ! d) else jac ! d) [0..<n]"
    using Cons.prems by auto
  show ?case
    using step rest same by auto
qed

lemma UpdateJacobian_value:
  assumes wt: "wf_tree n k depth ts" and bp: "buckets_partition n ts"
    and r: "r < n" and ld: "length ld = LeafCount ts"
    and d: "distinct sel" and sub: "set sel \<subseteq> {0..<LeafCount ts}" and j: "length jac = n"
  shows "UpdateJacobian ts sel r ld jac = Inr (map (updated_jacobian ts sel r ld jac) [0..<n])"
proof -
  have li: "length (LeafIndices ts) = n"
    using wt by (simp add: wf_tree_def)
  have rl: "LeafIndices ts ! r < LeafCount ts"
    using wf_tree_leaf [OF wt r] .
  let ?jac1 = "map (\<lambda>d. if LeafIndices ts ! d \<in> set sel
                          then jac ! d + ld ! (LeafIndices ts ! d) else jac ! d) [0..<n]"
  have fin: "(if LeafIndices ts ! r \<in> set sel then ?jac1
              else ?jac1[r := ?jac1 ! r + ld ! (LeafIndices ts ! r)]) =
             map (updated_jacobian ts sel r ld jac) [0..<n]"
    using r by (auto simp: updated_jacobian_def list_eq_iff_nth_eq nth_list_update)
  have "UpdateJacobian ts sel r ld jac =
          Inr (if LeafIndices ts ! r \<in> set sel then ?jac1
               else ?jac1[r := ?jac1 ! r + ld ! (LeafIndices ts ! r)])"
    using li r rl ld
    by (simp add: UpdateJacobian_def loopE_jacobian_leaf_step [OF wt bp r ld d sub j])
  then show ?thesis
    using fin by simp
qed


lemma iteration_step_value:
  fixes ev :: "'a::{zero,plus,times,uminus,inverse,abs,linorder} TDocumentImportancesEvaluator"
  assumes wf: "wf_evaluator ev" and nz: "nonzero_denominators ev" and srt: "Sort_contract Sort"
    and bp: "buckets_partition (DocCount ev) (TreesStatistics ev ! treeId)"
    and t: "treeId < TreeCount ev" and it: "it < LeavesEstimationIterations ev"
    and r: "r < DocCount ev" and j: "length jacobian = DocCount ev"
    and shape: "treeId < length lds" "it < length (lds ! treeId)"
    and sel: "GetLeafIdToUpdate Sort ev treeId jacobian = Inr sel"
    and ld: "ld = map (leaf_derivative_value (TreesStatistics ev ! treeId)
                       (FormulaNumeratorMultiplier (TreesStatistics ev ! treeId) ! it)
                       (FormulaNumeratorAdding (TreesStatistics ev ! treeId) ! it)
                       (FormulaDenominators (TreesStatistics ev ! treeId) ! it)
                       (LearningRate ev) r jacobian sel)
                  [0..<LeafCount (TreesStatistics ev ! treeId)]"
  shows "iteration_step Sort ev r treeId (TreesStatistics ev ! treeId) it (jacobian, lds) =
           Inr (map (updated_jacobian (TreesStatistics ev ! treeId) sel r ld jacobian)
                  [0..<DocCount ev],
                lds[treeId := (lds ! treeId)[it := ld]])"
proof -
  let ?ts = "TreesStatistics ev ! treeId"
  have wt: "wf_tree (DocCount ev) (LeavesEstimationIterations ev) (TreeSizes ev ! treeId) ?ts"
    using wf_evaluator_tree(1) [OF wf t] .
  have v: "UpdateLeavesDerivativesForTree ev sel r jacobian treeId it (lds ! treeId ! it) = Inr ld"
    and sub: "set sel \<subseteq> {0..<LeafCount ?ts}"
    using UpdateLeavesDerivativesForTree_selected_value [OF wf nz srt t it r j sel] ld by simp_all
  have d: "distinct sel"
    using GetLeafIdToUpdate_selected(1) [OF srt sel] .
  have "length ld = LeafCount ?ts"
    using ld by simp
  then have u: "UpdateJacobian ?ts sel r ld jacobian =
                 Inr (map (updated_jacobian ?ts sel r ld jacobian) [0..<DocCount ev])"
    using UpdateJacobian_value [OF wt bp r _ d sub j] by simp
  show ?thesis
    using sel shape v u by (simp add: iteration_step_def)
qed

lemma example_buckets:
  "buckets_partition (DocCount example_evaluator) (TreesStatistics example_evaluator ! 0)"
  by code_simp

text \<open>
  C4. One iteration for the removed document \<open>r\<close>: with \<open>ld\<close> the leaf derivatives
  \<open>UpdateLeavesDerivativesForTree\<close> computes from the current jacobian, the
  iteration stores \<open>ld\<close> in the tensor and leaves a jacobian in which \<open>ld[L]\<close> has
  been added at every document of the bucket of every selected leaf \<open>L\<close>; in
  which, when the leaf of \<open>r\<close> was not selected, the derivative of that leaf has
  been added at \<open>r\<close>; and in which every other entry is unchanged.
\<close>

theorem jacobian_update:
  fixes ev :: "'a::{zero,plus,times,uminus,inverse,abs,linorder} TDocumentImportancesEvaluator"
  assumes "wf_evaluator ev" and "nonzero_denominators ev" and "Sort_contract Sort"
    and "buckets_partition (DocCount ev) (TreesStatistics ev ! treeId)"
    and "treeId < TreeCount ev" and "it < LeavesEstimationIterations ev"
    and "r < DocCount ev" and "length jacobian = DocCount ev"
    and "treeId < length lds" and "it < length (lds ! treeId)"
    and "GetLeafIdToUpdate Sort ev treeId jacobian = Inr leafIdToUpdate"
  shows "\<exists>ld jacobian'.
           UpdateLeavesDerivativesForTree ev leafIdToUpdate r jacobian treeId it
             (lds ! treeId ! it) = Inr ld \<and>
           iteration_step Sort ev r treeId (TreesStatistics ev ! treeId) it (jacobian, lds) =
             Inr (jacobian', lds[treeId := (lds ! treeId)[it := ld]]) \<and>
           length jacobian' = DocCount ev \<and>
           (\<forall>L\<in>set leafIdToUpdate. \<forall>doc\<in>set (LeavesDocId (TreesStatistics ev ! treeId) ! L).
              jacobian' ! doc = jacobian ! doc + ld ! L) \<and>
           (LeafIndices (TreesStatistics ev ! treeId) ! r \<notin> set leafIdToUpdate \<longrightarrow>
              jacobian' ! r = jacobian ! r + ld ! (LeafIndices (TreesStatistics ev ! treeId) ! r)) \<and>
           (\<forall>doc<DocCount ev.
              LeafIndices (TreesStatistics ev ! treeId) ! doc \<notin> set leafIdToUpdate \<and> doc \<noteq> r \<longrightarrow>
              jacobian' ! doc = jacobian ! doc)"
proof -
  let ?ts = "TreesStatistics ev ! treeId"
  define ld where "ld = map (leaf_derivative_value ?ts
                       (FormulaNumeratorMultiplier ?ts ! it) (FormulaNumeratorAdding ?ts ! it)
                       (FormulaDenominators ?ts ! it) (LearningRate ev) r jacobian leafIdToUpdate)
                  [0..<LeafCount ?ts]"
  define jacobian' where
    "jacobian' = map (updated_jacobian ?ts leafIdToUpdate r ld jacobian) [0..<DocCount ev]"
  have wt: "wf_tree (DocCount ev) (LeavesEstimationIterations ev) (TreeSizes ev ! treeId) ?ts"
    using wf_evaluator_tree(1) [OF assms(1,5)] .
  have v: "UpdateLeavesDerivativesForTree ev leafIdToUpdate r jacobian treeId it
             (lds ! treeId ! it) = Inr ld"
    and sub: "set leafIdToUpdate \<subseteq> {0..<LeafCount ?ts}"
    using UpdateLeavesDerivativesForTree_selected_value [OF assms(1-3,5-8,11)] ld_def by simp_all
  have s: "iteration_step Sort ev r treeId ?ts it (jacobian, lds) =
             Inr (jacobian', lds[treeId := (lds ! treeId)[it := ld]])"
    unfolding jacobian'_def by (rule iteration_step_value [OF assms ld_def])
  have sel: "jacobian' ! doc = jacobian ! doc + ld ! L"
    if "L \<in> set leafIdToUpdate" "doc \<in> set (LeavesDocId ?ts ! L)" for L doc
  proof -
    have L: "L < LeafCount ?ts" using that(1) sub by auto
    have doc: "doc < DocCount ev" using wf_tree_bucket [OF wt L that(2)] .
    have "LeafIndices ?ts ! doc = L"
      using buckets_partition_mem [OF assms(4) L doc] that(2) by simp
    then show ?thesis
      using doc that(1) by (simp add: jacobian'_def updated_jacobian_def)
  qed
  have "length jacobian' = DocCount ev"
    by (simp add: jacobian'_def)
  moreover have "LeafIndices ?ts ! r \<notin> set leafIdToUpdate \<longrightarrow>
      jacobian' ! r = jacobian ! r + ld ! (LeafIndices ?ts ! r)"
    using assms(7) by (simp add: jacobian'_def updated_jacobian_def)
  moreover have "\<forall>doc<DocCount ev.
      LeafIndices ?ts ! doc \<notin> set leafIdToUpdate \<and> doc \<noteq> r \<longrightarrow> jacobian' ! doc = jacobian ! doc"
    by (simp add: jacobian'_def updated_jacobian_def)
  ultimately show ?thesis
    using v s sel by blast
qed

theorem jacobian_update_witness:
  "\<exists>ld jacobian'.
     UpdateLeavesDerivativesForTree example_evaluator [0] 1 [5, 1, 0] 0 0 [] = Inr ld \<and>
     iteration_step insertion_Sort example_evaluator 1 0 (TreesStatistics example_evaluator ! 0) 0
       ([5, 1, 0], [[[]], [[]]]) = Inr (jacobian', [[ld], [[]]]) \<and>
     jacobian' ! 0 = 5 + ld ! 0 \<and> jacobian' ! 1 = 1 + ld ! 1 \<and> jacobian' ! 2 = 0"
proof -
  have ex: "TreesStatistics example_evaluator ! 0 = example_tree" "DocCount example_evaluator = 3"
    "TreeCount example_evaluator = 2" "LeavesEstimationIterations example_evaluator = 1"
    by (simp_all add: example_evaluator_def)
  obtain ld jacobian' where
    a: "UpdateLeavesDerivativesForTree example_evaluator [0] 1 [5, 1, 0] 0 0
          ([[[]], [[]]] ! 0 ! 0) = Inr ld"
    and b: "iteration_step insertion_Sort example_evaluator 1 0
          (TreesStatistics example_evaluator ! 0) 0 ([5, 1, 0], [[[]], [[]]]) =
          Inr (jacobian', [[[]], [[]]][0 := ([[[]], [[]]] ! 0)[0 := ld]])"
    and c: "\<forall>L\<in>set [0::nat]. \<forall>doc\<in>set (LeavesDocId (TreesStatistics example_evaluator ! 0) ! L).
          jacobian' ! doc = [5, 1, 0] ! doc + ld ! L"
    and d: "LeafIndices (TreesStatistics example_evaluator ! 0) ! 1 \<notin> set [0::nat] \<longrightarrow>
          jacobian' ! 1 = [5, 1, 0] ! 1 + ld ! (LeafIndices (TreesStatistics example_evaluator ! 0) ! 1)"
    and e: "\<forall>doc<DocCount example_evaluator.
          LeafIndices (TreesStatistics example_evaluator ! 0) ! doc \<notin> set [0::nat] \<and> doc \<noteq> 1 \<longrightarrow>
          jacobian' ! doc = [5, 1, 0] ! doc"
    using jacobian_update [OF example_wf example_nonzero insertion_Sort_contract example_buckets
        _ _ _ _ _ _ example_selected_other, of 0 1 "[[[]], [[]]]"]
    unfolding ex by auto
  have "jacobian' ! 0 = 5 + ld ! 0"
    using c by (simp add: ex example_tree_def)
  moreover have "jacobian' ! 1 = 1 + ld ! 1"
    using d by (simp add: ex example_tree_def)
  moreover have "jacobian' ! 2 = 0"
    using e [rule_format, of 2] by (simp add: ex example_tree_def)
  ultimately show ?thesis
    using a b by auto
qed


section \<open>The row of one training document\<close>

lemma loopE_predicted_step:
  assumes "distinct docs"
    and "\<forall>d\<in>set docs. d < length pd \<and> d < length li \<and> li ! d < length ld"
  shows "loopE (predicted_step li ld) docs pd =
           Inr (map (\<lambda>e. if e \<in> set docs then pd ! e + ld ! (li ! e) else pd ! e)
                  [0..<length pd])"
  using assms
proof (induction docs arbitrary: pd)
  case Nil
  then show ?case by (simp add: map_nth)
next
  case (Cons x docs)
  let ?pd1 = "pd[x := pd ! x + ld ! (li ! x)]"
  have step: "predicted_step li ld x pd = Inr ?pd1"
    using Cons.prems by (simp add: predicted_step_def)
  have rest: "loopE (predicted_step li ld) docs ?pd1 =
           Inr (map (\<lambda>e. if e \<in> set docs then ?pd1 ! e + ld ! (li ! e) else ?pd1 ! e)
                  [0..<length ?pd1])"
    using Cons.prems by (intro Cons.IH) simp_all
  have same: "map (\<lambda>e. if e \<in> set docs then ?pd1 ! e + ld ! (li ! e) else ?pd1 ! e)
                  [0..<length ?pd1] =
              map (\<lambda>e. if e \<in> set (x # docs) then pd ! e + ld ! (li ! e) else pd ! e)
                  [0..<length pd]"
    using Cons.prems by (auto simp: nth_list_update)
  show ?case
    using step rest same by simp
qed

lemma loopE_predicted_iteration_step:
  assumes "length pd = n"
    and "\<forall>it\<in>set its. t < length lds \<and> it < length (lds ! t) \<and>
           (\<forall>e<n. e < length li \<and> li ! e < length (lds ! t ! it))"
  shows "loopE (predicted_iteration_step lds li n t) its pd =
           Inr (map (\<lambda>e. foldl (+) (pd ! e) (map (\<lambda>it. lds ! t ! it ! (li ! e)) its)) [0..<n])"
  using assms
proof (induction its arbitrary: pd)
  case Nil
  then show ?case by (auto simp: map_nth)
next
  case (Cons it its)
  let ?pd1 = "map (\<lambda>e. pd ! e + lds ! t ! it ! (li ! e)) [0..<n]"
  have "loopE (predicted_step li (lds ! t ! it)) [0..<n] pd =
          Inr (map (\<lambda>e. if e \<in> set [0..<n] then pd ! e + lds ! t ! it ! (li ! e) else pd ! e)
                 [0..<length pd])"
    using Cons.prems by (intro loopE_predicted_step) simp_all
  then have step: "predicted_iteration_step lds li n t it pd = Inr ?pd1"
    using Cons.prems by (simp add: predicted_iteration_step_def)
  have rest: "loopE (predicted_iteration_step lds li n t) its ?pd1 =
      Inr (map (\<lambda>e. foldl (+) (?pd1 ! e) (map (\<lambda>it. lds ! t ! it ! (li ! e)) its)) [0..<n])"
    using Cons.prems by (intro Cons.IH) simp_all
  show ?case
    using step rest by simp
qed

lemma loopE_predicted_tree_step:
  assumes "length pd = n"
    and "\<forall>t\<in>set trees. t < length lis \<and>
           (\<forall>it<k. t < length lds \<and> it < length (lds ! t) \<and>
              (\<forall>e<n. e < length (lis ! t) \<and> lis ! t ! e < length (lds ! t ! it)))"
  shows "loopE (predicted_tree_step lds lis k n) trees pd =
           Inr (map (\<lambda>e. foldl (+) (pd ! e)
                            (concat (map (\<lambda>t. map (\<lambda>it. lds ! t ! it ! (lis ! t ! e)) [0..<k])
                                       trees)))
                  [0..<n])"
  using assms
proof (induction trees arbitrary: pd)
  case Nil
  then show ?case by (auto simp: map_nth)
next
  case (Cons t trees)
  let ?pd1 = "map (\<lambda>e. foldl (+) (pd ! e) (map (\<lambda>it. lds ! t ! it ! (lis ! t ! e)) [0..<k]))
                [0..<n]"
  have "loopE (predicted_iteration_step lds (lis ! t) n t) [0..<k] pd = Inr ?pd1"
    using Cons.prems by (intro loopE_predicted_iteration_step) simp_all
  then have step: "predicted_tree_step lds lis k n t pd = Inr ?pd1"
    using Cons.prems by (simp add: predicted_tree_step_def)
  have rest: "loopE (predicted_tree_step lds lis k n) trees ?pd1 =
      Inr (map (\<lambda>e. foldl (+) (?pd1 ! e)
                       (concat (map (\<lambda>t. map (\<lambda>it. lds ! t ! it ! (lis ! t ! e)) [0..<k])
                                  trees)))
             [0..<n])"
    using Cons.prems by (intro Cons.IH) simp_all
  show ?case
    using step rest by simp
qed

lemma loopE_importance_step:
  assumes "distinct docs" and "\<forall>d\<in>set docs. d < length di \<and> d < length ffd \<and> d < length pd"
  shows "loopE (importance_step ffd pd) docs di =
           Inr (map (\<lambda>e. if e \<in> set docs then ffd ! e * pd ! e else di ! e) [0..<length di])"
  using assms
proof (induction docs arbitrary: di)
  case Nil
  then show ?case by (simp add: map_nth)
next
  case (Cons x docs)
  let ?di1 = "di[x := ffd ! x * pd ! x]"
  have step: "importance_step ffd pd x di = Inr ?di1"
    using Cons.prems by (simp add: importance_step_def)
  have rest: "loopE (importance_step ffd pd) docs ?di1 =
           Inr (map (\<lambda>e. if e \<in> set docs then ffd ! e * pd ! e else ?di1 ! e)
                  [0..<length ?di1])"
    using Cons.prems by (intro Cons.IH) simp_all
  have same: "map (\<lambda>e. if e \<in> set docs then ffd ! e * pd ! e else ?di1 ! e) [0..<length ?di1] =
              map (\<lambda>e. if e \<in> set (x # docs) then ffd ! e * pd ! e else di ! e) [0..<length di]"
    using Cons.prems by (auto simp: nth_list_update)
  show ?case
    using step rest same by simp
qed

lemma GetDocumentImportancesForOneTrainDoc_value:
  fixes ev :: "'a::{zero,plus,times} TDocumentImportancesEvaluator"
  assumes "TreeCount ev \<le> length lis"
    and "\<forall>t<TreeCount ev. \<forall>it<LeavesEstimationIterations ev.
           t < length lds \<and> it < length (lds ! t) \<and>
           (\<forall>e<length di. e < length (lis ! t) \<and> lis ! t ! e < length (lds ! t ! it))"
    and "length di \<le> length (FinalFirstDerivatives ev)"
  shows "GetDocumentImportancesForOneTrainDoc ev lds lis di =
           Inr (map (\<lambda>e. FinalFirstDerivatives ev ! e
                          * predicted_derivative lds lis (TreeCount ev)
                              (LeavesEstimationIterations ev) e)
                  [0..<length di])"
proof -
  let ?n = "length di"
  let ?pd = "map (\<lambda>e. foldl (+) (replicate ?n (0::'a) ! e)
                      (concat (map (\<lambda>t. map (\<lambda>it. lds ! t ! it ! (lis ! t ! e))
                                           [0..<LeavesEstimationIterations ev])
                                 [0..<TreeCount ev]))) [0..<?n]"
  have p: "loopE (predicted_tree_step lds lis (LeavesEstimationIterations ev) ?n)
             [0..<TreeCount ev] (replicate ?n 0) = Inr ?pd"
    using assms(1,2) by (intro loopE_predicted_tree_step) simp_all
  have i: "loopE (importance_step (FinalFirstDerivatives ev) ?pd) [0..<?n] di =
             Inr (map (\<lambda>e. if e \<in> set [0..<?n] then FinalFirstDerivatives ev ! e * ?pd ! e
                            else di ! e) [0..<?n])"
    using assms(3) by (intro loopE_importance_step) simp_all
  show ?thesis
    unfolding GetDocumentImportancesForOneTrainDoc_def Let_def p bindE_Inr i
    by (simp add: predicted_derivative_def running_sum_def)
qed


section \<open>UpdateLeavesDerivatives is defined on well-formed input\<close>

lemma loopE_upt_invariant:
  assumes "I 0 s"
    and "\<And>i s. i < n \<Longrightarrow> I i s \<Longrightarrow> \<exists>s'. body i s = Inr s' \<and> I (Suc i) s'"
  shows "\<exists>s'. loopE body [0..<n] s = Inr s' \<and> I n s'"
  using assms(2)
proof (induction n)
  case 0
  then show ?case using assms(1) by simp
next
  case (Suc n)
  then obtain s1 where s1: "loopE body [0..<n] s = Inr s1" "I n s1"
    by (metis less_Suc_eq)
  obtain s2 where "body n s1 = Inr s2" "I (Suc n) s2"
    using Suc.prems [of n s1] s1(2) by auto
  then show ?case
    using s1 by (simp add: loopE_append)
qed

lemma loopE_upt_cong:
  assumes "I 0 s"
    and "\<And>i s. i < n \<Longrightarrow> I i s \<Longrightarrow> body1 i s = body2 i s"
    and "\<And>i s s'. i < n \<Longrightarrow> I i s \<Longrightarrow> body1 i s = Inr s' \<Longrightarrow> I (Suc i) s'"
  shows "loopE body1 [0..<n] s = loopE body2 [0..<n] s \<and>
         (\<forall>s'. loopE body1 [0..<n] s = Inr s' \<longrightarrow> I n s')"
  using assms(2,3)
proof (induction n)
  case 0
  then show ?case using assms(1) by simp
next
  case (Suc n)
  have IH: "loopE body1 [0..<n] s = loopE body2 [0..<n] s"
    "\<And>s'. loopE body1 [0..<n] s = Inr s' \<Longrightarrow> I n s'"
    using Suc.IH Suc.prems by (simp_all add: less_Suc_eq)
  show ?case
  proof (cases "loopE body1 [0..<n] s")
    case (Inl e)
    then show ?thesis using IH(1) by (simp add: loopE_append)
  next
    case (Inr s1)
    then have "I n s1" using IH(2) by simp
    then have "body1 n s1 = body2 n s1" "\<And>s'. body1 n s1 = Inr s' \<Longrightarrow> I (Suc n) s'"
      using Suc.prems by simp_all
    then show ?thesis
      using Inr IH(1) by (auto simp: loopE_append bindE_def split: sum.splits)
  qed
qed

lemma GetLeafIdToUpdate_defined:
  fixes ev :: "'a::{zero,plus,abs,ord} TDocumentImportancesEvaluator"
  assumes wf: "wf_evaluator ev" and t: "treeId < TreeCount ev"
    and j: "length jacobian = DocCount ev"
  shows "\<exists>sel. GetLeafIdToUpdate Sort ev treeId jacobian = Inr sel"
proof (cases "UpdateType (UpdateMethod ev)")
  case AllPoints
  have "wf_tree (DocCount ev) (LeavesEstimationIterations ev) (TreeSizes ev ! treeId)
          (TreesStatistics ev ! treeId)" and "treeId < length (TreeSizes ev)"
    using wf_evaluator_tree [OF wf t] by blast+
  then show ?thesis
    using AllPoints by (simp add: GetLeafIdToUpdate_def wf_tree_def shl1_def)
next
  case TopKLeaves
  then show ?thesis
    using GetLeafIdToUpdate_TopKLeaves [OF wf t j] by simp
qed

lemma loop_state_next_tree:
  "loop_state ev t (LeavesEstimationIterations ev) st \<Longrightarrow> loop_state ev (Suc t) 0 st"
  by (auto simp: loop_state_def less_Suc_eq)

lemma loop_state_step:
  assumes "loop_state ev t i (jac, lds)" and "t < TreeCount ev"
    and "i < LeavesEstimationIterations ev"
    and "length jac' = DocCount ev" and "length ld = LeafCount (TreesStatistics ev ! t)"
  shows "loop_state ev t (Suc i) (jac', lds[t := (lds ! t)[i := ld]])"
  using assms by (auto simp: loop_state_def nth_list_update less_Suc_eq)

lemma iteration_step_defined:
  fixes ev :: "'a::{zero,plus,times,uminus,inverse,abs,linorder} TDocumentImportancesEvaluator"
  assumes wf: "wf_evaluator ev" and nz: "nonzero_denominators ev" and srt: "Sort_contract Sort"
    and bp: "wf_buckets ev"
    and t: "t < TreeCount ev" and it: "i < LeavesEstimationIterations ev"
    and r: "r < DocCount ev" and st: "loop_state ev t i st"
  shows "\<exists>st'. iteration_step Sort ev r t (TreesStatistics ev ! t) i st = Inr st' \<and>
           loop_state ev t (Suc i) st'"
proof -
  obtain jac lds where s: "st = (jac, lds)" by (cases st)
  have j: "length jac = DocCount ev" and shape: "t < length lds" "i < length (lds ! t)"
    using st t it unfolding s loop_state_def by simp_all
  obtain sel where sel: "GetLeafIdToUpdate Sort ev t jac = Inr sel"
    using GetLeafIdToUpdate_defined [OF wf t j] by blast
  have b: "buckets_partition (DocCount ev) (TreesStatistics ev ! t)"
    using bp t by (simp add: wf_buckets_def)
  show ?thesis
    unfolding s iteration_step_value [OF wf nz srt b t it r j shape sel refl]
    using loop_state_step [OF st [unfolded s] t it] by simp
qed

lemma tree_step_defined:
  fixes ev :: "'a::{zero,plus,times,uminus,inverse,abs,linorder} TDocumentImportancesEvaluator"
  assumes wf: "wf_evaluator ev" and nz: "nonzero_denominators ev" and srt: "Sort_contract Sort"
    and bp: "wf_buckets ev"
    and t: "t < TreeCount ev" and r: "r < DocCount ev" and st: "loop_state ev t 0 st"
  shows "\<exists>st'. tree_step Sort ev r t st = Inr st' \<and> loop_state ev (Suc t) 0 st'"
proof -
  have "\<exists>st'. loopE (iteration_step Sort ev r t (TreesStatistics ev ! t))
                [0..<LeavesEstimationIterations ev] st = Inr st' \<and>
              loop_state ev t (LeavesEstimationIterations ev) st'"
    using st iteration_step_defined [OF wf nz srt bp t _ r]
    by (intro loopE_upt_invariant [where I = "loop_state ev t"]) simp_all
  then show ?thesis
    using wf_evaluator_tree(2) [OF wf t] loop_state_next_tree
    by (auto simp: tree_step_def)
qed

lemma UpdateLeavesDerivatives_defined:
  fixes ev :: "'a::{zero,plus,times,uminus,inverse,abs,linorder} TDocumentImportancesEvaluator"
  assumes wf: "wf_evaluator ev" and nz: "nonzero_denominators ev" and srt: "Sort_contract Sort"
    and bp: "wf_buckets ev" and r: "r < DocCount ev"
    and shape: "length lds = TreeCount ev"
      "\<forall>t<TreeCount ev. length (lds ! t) = LeavesEstimationIterations ev"
  shows "\<exists>lds'. UpdateLeavesDerivatives Sort ev r lds = Inr lds' \<and> derivatives_shape ev lds'"
proof -
  have "\<exists>st'. loopE (tree_step Sort ev r) [0..<TreeCount ev] (replicate (DocCount ev) 0, lds) =
                Inr st' \<and> loop_state ev (TreeCount ev) 0 st'"
    using shape tree_step_defined [OF wf nz srt bp _ r]
    by (intro loopE_upt_invariant [where I = "\<lambda>t. loop_state ev t 0"])
      (simp_all add: loop_state_def)
  then obtain st' where
    "loopE (tree_step Sort ev r) [0..<TreeCount ev] (replicate (DocCount ev) 0, lds) = Inr st'"
    "loop_state ev (TreeCount ev) 0 st'"
    by blast
  then show ?thesis
    by (auto simp: UpdateLeavesDerivatives_def loop_state_def derivatives_shape_def)
qed


section \<open>The importance matrix\<close>

lemma approx_step_eq: "approx_step = predicted_step"
  by (intro ext) (simp add: approx_step_def predicted_step_def)

lemma approx_iteration_step_eq:
  "approx_iteration_step ev li n t =
     predicted_iteration_step (map LeafValues (TreesStatistics ev)) li n t"
  by (intro ext)
    (simp add: approx_iteration_step_def predicted_iteration_step_def approx_step_eq vec_at_def)

lemma approx_tree_step_eq:
  "approx_tree_step ev lis n =
     predicted_tree_step (map LeafValues (TreesStatistics ev)) lis
       (LeavesEstimationIterations ev) n"
  by (intro ext) (simp add: approx_tree_step_def predicted_tree_step_def approx_iteration_step_eq)

lemma UpdateFinalFirstDerivatives_value:
  fixes ev :: "'a::{zero,plus} TDocumentImportancesEvaluator"
  assumes "TreeCount ev \<le> length lis"
    and "\<forall>t<TreeCount ev. \<forall>it<LeavesEstimationIterations ev.
           t < length (TreesStatistics ev) \<and> it < length (LeafValues (TreesStatistics ev ! t)) \<and>
           (\<forall>e<n. e < length (lis ! t) \<and>
                  lis ! t ! e < length (LeafValues (TreesStatistics ev ! t) ! it))"
  shows "UpdateFinalFirstDerivatives E ev lis n =
           Inr (ev\<lparr>FinalFirstDerivatives :=
                     E (map (predicted_derivative (map LeafValues (TreesStatistics ev)) lis
                               (TreeCount ev) (LeavesEstimationIterations ev)) [0..<n])\<rparr>)"
proof -
  let ?lds = "map LeafValues (TreesStatistics ev)"
  have "loopE (predicted_tree_step ?lds lis (LeavesEstimationIterations ev) n)
          [0..<TreeCount ev] (replicate n 0) =
        Inr (map (\<lambda>e. foldl (+) (replicate n (0::'a) ! e)
                         (concat (map (\<lambda>t. map (\<lambda>it. ?lds ! t ! it ! (lis ! t ! e))
                                              [0..<LeavesEstimationIterations ev])
                                    [0..<TreeCount ev]))) [0..<n])"
    using assms by (intro loopE_predicted_tree_step) simp_all
  also have "map (\<lambda>e. foldl (+) (replicate n (0::'a) ! e)
                         (concat (map (\<lambda>t. map (\<lambda>it. ?lds ! t ! it ! (lis ! t ! e))
                                              [0..<LeavesEstimationIterations ev])
                                    [0..<TreeCount ev]))) [0..<n] =
             map (predicted_derivative ?lds lis (TreeCount ev) (LeavesEstimationIterations ev))
               [0..<n]"
    by (simp add: predicted_derivative_def running_sum_def)
  finally show ?thesis
    by (simp add: UpdateFinalFirstDerivatives_def approx_tree_step_eq)
qed

lemma mapE_defined:
  assumes "\<forall>x\<in>set xs. \<exists>y. f x = Inr y \<and> P x y"
  shows "\<exists>ys. mapE f xs = Inr ys \<and> length ys = length xs \<and> (\<forall>i<length xs. P (xs ! i) (ys ! i))"
  using assms
proof (induction xs)
  case Nil
  then show ?case by simp
next
  case (Cons x xs)
  then obtain y ys where "f x = Inr y" "P x y" "mapE f xs = Inr ys" "length ys = length xs"
    "\<forall>i<length xs. P (xs ! i) (ys ! i)"
    by auto
  then show ?case
    by (auto simp: nth_Cons split: nat.splits)
qed

lemma mapE_cong:
  assumes "\<forall>x\<in>set xs. f x = g x"
  shows "mapE f xs = mapE g xs"
  using assms by (induction xs) (auto split: sum.splits)

lemma wf_evaluator_FinalFirstDerivatives [simp]:
  "wf_evaluator (ev\<lparr>FinalFirstDerivatives := x\<rparr>) = wf_evaluator ev"
  "nonzero_denominators (ev\<lparr>FinalFirstDerivatives := x\<rparr>) = nonzero_denominators ev"
  "wf_buckets (ev\<lparr>FinalFirstDerivatives := x\<rparr>) = wf_buckets ev"
  by (simp_all add: wf_evaluator_def nonzero_denominators_def wf_buckets_def)

lemma wf_pool_nth:
  assumes "wf_pool ev B n" and "t < TreeCount ev" and "e < n"
  shows "length (B t) = n" and "B t ! e < LeafCount (TreesStatistics ev ! t)"
proof -
  show l: "length (B t) = n"
    using assms(1,2) by (simp add: wf_pool_def)
  have "\<forall>l\<in>set (B t). l < LeafCount (TreesStatistics ev ! t)"
    using assms(1,2) by (simp add: wf_pool_def)
  then show "B t ! e < LeafCount (TreesStatistics ev ! t)"
    using l assms(3) nth_mem by blast
qed

lemma wf_tree_LeafValues:
  assumes "wf_tree n k d ts" and "it < k"
  shows "it < length (LeafValues ts)" and "length (LeafValues ts ! it) = LeafCount ts"
  using assms by (simp_all add: wf_tree_def)

text \<open>
  C1. On well-formed input \<open>GetDocumentImportances\<close> returns a matrix with one row
  per training document, and the entry at row \<open>t\<close>, column \<open>e\<close> is
  \<open>FinalFirstDerivatives[e]\<close> (as \<open>UpdateFinalFirstDerivatives\<close> stored them) times the
  predicted derivative of \<open>e\<close>: the sum over all trees and all leaves-estimation
  iterations of \<open>leafDerivatives[tree][iteration][leafIndices[tree][e]]\<close>, for the
  leaf derivatives \<open>UpdateLeavesDerivatives\<close> computes for the removed document \<open>t\<close>.
\<close>

theorem importance_score:
  fixes ev :: "'a::{zero,plus,times,uminus,inverse,abs,linorder} TDocumentImportancesEvaluator"
  assumes "wf_evaluator ev" and "nonzero_denominators ev" and "wf_buckets ev"
    and "Sort_contract Sort" and "wf_pool ev BuildIndicesForBinTree n"
    and "sized_derivatives EvaluateDerivatives"
  shows "\<exists>ev' m.
           UpdateFinalFirstDerivatives EvaluateDerivatives ev
             (map BuildIndicesForBinTree [0..<TreeCount ev]) n = Inr ev' \<and>
           GetDocumentImportances Sort BuildIndicesForBinTree EvaluateDerivatives ev n = Inr m \<and>
           length m = DocCount ev \<and>
           (\<forall>t<DocCount ev. \<exists>leafDerivatives.
              UpdateLeavesDerivatives Sort ev' t
                (replicate (TreeCount ev) (replicate (LeavesEstimationIterations ev) [])) =
                Inr leafDerivatives \<and>
              length (m ! t) = n \<and>
              (\<forall>e<n. m ! t ! e =
                 FinalFirstDerivatives ev' ! e
                 * predicted_derivative leafDerivatives
                     (map BuildIndicesForBinTree [0..<TreeCount ev])
                     (TreeCount ev) (LeavesEstimationIterations ev) e))"
proof -
  let ?lis = "map BuildIndicesForBinTree [0..<TreeCount ev]"
  let ?k = "LeavesEstimationIterations ev"
  let ?ld0 = "replicate (TreeCount ev) (replicate ?k ([]::'a list))"
  define ev' where "ev' = ev\<lparr>FinalFirstDerivatives :=
      EvaluateDerivatives (map (predicted_derivative (map LeafValues (TreesStatistics ev)) ?lis
                                  (TreeCount ev) ?k) [0..<n])\<rparr>"
  have same: "TreeCount ev' = TreeCount ev" "LeavesEstimationIterations ev' = ?k"
    "DocCount ev' = DocCount ev" "TreesStatistics ev' = TreesStatistics ev"
    "length (FinalFirstDerivatives ev') = n"
    using assms(6) by (simp_all add: ev'_def sized_derivatives_def)
  have wf': "wf_evaluator ev'" "nonzero_denominators ev'" "wf_buckets ev'"
    using assms(1-3) by (simp_all add: ev'_def)
  have u: "UpdateFinalFirstDerivatives EvaluateDerivatives ev ?lis n = Inr ev'"
    unfolding ev'_def
  proof (intro UpdateFinalFirstDerivatives_value allI impI)
    show "TreeCount ev \<le> length ?lis" by simp
    fix t it assume t: "t < TreeCount ev" and it: "it < ?k"
    note wt = wf_evaluator_tree [OF assms(1) t]
    show "t < length (TreesStatistics ev) \<and> it < length (LeafValues (TreesStatistics ev ! t)) \<and>
          (\<forall>e<n. e < length (?lis ! t) \<and>
                 ?lis ! t ! e < length (LeafValues (TreesStatistics ev ! t) ! it))"
      using wt(2) wf_tree_LeafValues [OF wt(1) it] wf_pool_nth [OF assms(5) t] t by simp
  qed
  have row: "\<exists>row. bindE (UpdateLeavesDerivatives Sort ev' t
                            (replicate (TreeCount ev') (replicate (LeavesEstimationIterations ev') [])))
                     (\<lambda>leafDerivatives.
                        GetDocumentImportancesForOneTrainDoc ev' leafDerivatives ?lis
                          (replicate n 0)) = Inr row \<and>
               (\<exists>lds. UpdateLeavesDerivatives Sort ev' t ?ld0 = Inr lds \<and>
                  row = map (\<lambda>e. FinalFirstDerivatives ev' ! e
                                   * predicted_derivative lds ?lis (TreeCount ev) ?k e) [0..<n])"
    if "t \<in> set [0..<DocCount ev']" for t
  proof -
    have t: "t < DocCount ev'" using that by simp
    obtain lds where lds: "UpdateLeavesDerivatives Sort ev' t ?ld0 = Inr lds"
      and sh: "derivatives_shape ev' lds"
      using UpdateLeavesDerivatives_defined [OF wf'(1,2) assms(4) wf'(3) t, of ?ld0]
      by (auto simp: same)
    have "GetDocumentImportancesForOneTrainDoc ev' lds ?lis (replicate n 0) =
            Inr (map (\<lambda>e. FinalFirstDerivatives ev' ! e
                           * predicted_derivative lds ?lis (TreeCount ev')
                               (LeavesEstimationIterations ev') e)
                   [0..<length (replicate n (0::'a))])"
    proof (intro GetDocumentImportancesForOneTrainDoc_value allI impI)
      show "TreeCount ev' \<le> length ?lis" by (simp add: same)
      show "length (replicate n (0::'a)) \<le> length (FinalFirstDerivatives ev')"
        by (simp add: same)
      fix tr it assume tr: "tr < TreeCount ev'" and it: "it < LeavesEstimationIterations ev'"
      then have "tr < TreeCount ev" by (simp add: same)
      note p = wf_pool_nth [OF assms(5) this]
      show "tr < length lds \<and> it < length (lds ! tr) \<and>
            (\<forall>e<length (replicate n (0::'a)). e < length (?lis ! tr) \<and>
                ?lis ! tr ! e < length (lds ! tr ! it))"
        using sh tr it p by (simp add: derivatives_shape_def same)
    qed
    then show ?thesis
      using lds by (simp add: same)
  qed
  obtain m where m: "mapE (\<lambda>docId.
                bindE (UpdateLeavesDerivatives Sort ev' docId
                         (replicate (TreeCount ev') (replicate (LeavesEstimationIterations ev') [])))
                  (\<lambda>leafDerivatives.
                     GetDocumentImportancesForOneTrainDoc ev' leafDerivatives ?lis
                       (replicate n 0))) [0..<DocCount ev'] = Inr m"
    and lm: "length m = length [0..<DocCount ev']"
    and rows: "\<forall>i<length [0..<DocCount ev'].
                \<exists>lds. UpdateLeavesDerivatives Sort ev' ([0..<DocCount ev'] ! i) ?ld0 = Inr lds \<and>
                  m ! i = map (\<lambda>e. FinalFirstDerivatives ev' ! e
                                   * predicted_derivative lds ?lis (TreeCount ev) ?k e) [0..<n]"
    using mapE_defined [where P = "\<lambda>t row. \<exists>lds. UpdateLeavesDerivatives Sort ev' t ?ld0 = Inr lds \<and>
                  row = map (\<lambda>e. FinalFirstDerivatives ev' ! e
                                   * predicted_derivative lds ?lis (TreeCount ev) ?k e) [0..<n]",
        OF ballI [OF row]]
    by blast
  have g: "GetDocumentImportances Sort BuildIndicesForBinTree EvaluateDerivatives ev n = Inr m"
    using m by (simp add: GetDocumentImportances_def u)
  have "\<forall>t<DocCount ev. \<exists>lds. UpdateLeavesDerivatives Sort ev' t ?ld0 = Inr lds \<and>
          length (m ! t) = n \<and>
          (\<forall>e<n. m ! t ! e = FinalFirstDerivatives ev' ! e
                               * predicted_derivative lds ?lis (TreeCount ev) ?k e)"
  proof (intro allI impI)
    fix t assume t: "t < DocCount ev"
    then obtain lds where "UpdateLeavesDerivatives Sort ev' t ?ld0 = Inr lds"
      "m ! t = map (\<lambda>e. FinalFirstDerivatives ev' ! e
                          * predicted_derivative lds ?lis (TreeCount ev) ?k e) [0..<n]"
      using rows by (auto simp: same)
    then show "\<exists>lds. UpdateLeavesDerivatives Sort ev' t ?ld0 = Inr lds \<and>
          length (m ! t) = n \<and>
          (\<forall>e<n. m ! t ! e = FinalFirstDerivatives ev' ! e
                               * predicted_derivative lds ?lis (TreeCount ev) ?k e)"
      by auto
  qed
  then show ?thesis
    using u g lm by (auto simp: same)
qed

lemma example_wf_buckets: "wf_buckets example_evaluator"
  by code_simp

lemma example_pool: "wf_pool example_evaluator (\<lambda>t. [0, 1]) 2"
  by code_simp

lemma example_sized: "sized_derivatives (map (\<lambda>x :: real. x + 1))"
  by (simp add: sized_derivatives_def)

lemma example_importances:
  "GetDocumentImportances insertion_Sort (\<lambda>t. [0, 1]) (map (\<lambda>x. x + 1)) example_evaluator 2 =
     Inr [[- (21 / 2), 0], [0, - (275 / 16)], [0, - (195 / 16)]]"
  by code_simp

theorem importance_score_witness:
  "GetDocumentImportances insertion_Sort (\<lambda>t. [0, 1]) (map (\<lambda>x. x + 1)) example_evaluator 2 =
     Inr [[- (21 / 2), 0], [0, - (275 / 16)], [0, - (195 / 16)]] \<and>
   (\<exists>ev' leafDerivatives.
      UpdateFinalFirstDerivatives (map (\<lambda>x. x + 1)) example_evaluator [[0, 1], [0, 1]] 2 = Inr ev' \<and>
      UpdateLeavesDerivatives insertion_Sort ev' 1 [[[]], [[]]] = Inr leafDerivatives \<and>
      - (275 / 16) =
        FinalFirstDerivatives ev' ! 1 * predicted_derivative leafDerivatives [[0, 1], [0, 1]] 2 1 1)"
proof -
  have c: "TreeCount example_evaluator = 2" "DocCount example_evaluator = 3"
    "LeavesEstimationIterations example_evaluator = 1"
    by (simp_all add: example_evaluator_def)
  have l: "map (\<lambda>t::nat. [0, 1::nat]) [0..<2] = [[0, 1], [0, 1]]"
    "replicate 2 (replicate 1 ([]::real list)) = [[[]], [[]]]"
    by code_simp+
  obtain ev' m where
    u: "UpdateFinalFirstDerivatives (map (\<lambda>x. x + 1)) example_evaluator [[0, 1], [0, 1]] 2 = Inr ev'"
    and g: "GetDocumentImportances insertion_Sort (\<lambda>t. [0, 1]) (map (\<lambda>x. x + 1))
              example_evaluator 2 = Inr m"
    and rows: "\<forall>t<3. \<exists>leafDerivatives.
              UpdateLeavesDerivatives insertion_Sort ev' t [[[]], [[]]] = Inr leafDerivatives \<and>
              length (m ! t) = 2 \<and>
              (\<forall>e<2. m ! t ! e =
                 FinalFirstDerivatives ev' ! e
                 * predicted_derivative leafDerivatives [[0, 1], [0, 1]] 2 1 e)"
    using importance_score [OF example_wf example_nonzero example_wf_buckets
        insertion_Sort_contract example_pool example_sized]
    unfolding c l by blast
  have m: "m = [[- (21 / 2), 0], [0, - (275 / 16)], [0, - (195 / 16)]]"
    using g example_importances by simp
  obtain leafDerivatives where
    "UpdateLeavesDerivatives insertion_Sort ev' 1 [[[]], [[]]] = Inr leafDerivatives"
    "\<forall>e<2. m ! 1 ! e = FinalFirstDerivatives ev' ! e
                 * predicted_derivative leafDerivatives [[0, 1], [0, 1]] 2 1 e"
    using rows [rule_format, of 1] by auto
  then have "UpdateLeavesDerivatives insertion_Sort ev' 1 [[[]], [[]]] = Inr leafDerivatives \<and>
      - (275 / 16) = FinalFirstDerivatives ev' ! 1
                 * predicted_derivative leafDerivatives [[0, 1], [0, 1]] 2 1 1"
    unfolding m by (auto dest: spec [of _ 1])
  then show ?thesis
    using u example_importances by blast
qed

section \<open>No leaves-estimation iteration\<close>

lemma loopE_skip:
  assumes "\<And>x s. x \<in> set xs \<Longrightarrow> body x s = Inr s"
  shows "loopE body xs s = Inr s"
  using assms by (induction xs) simp_all

lemma mapE_const:
  assumes "\<forall>x\<in>set xs. f x = Inr c"
  shows "mapE f xs = Inr (replicate (length xs) c)"
  using assms by (induction xs) simp_all

lemma concat_map_Nil: "concat (map (\<lambda>x. []) xs) = []"
  by (induction xs) simp_all

lemma predicted_derivative_no_iterations [simp]:
  "predicted_derivative lds lis k 0 e = 0"
  by (simp add: predicted_derivative_def running_sum_def concat_map_Nil)

lemma map_predicted_derivative_no_iterations:
  "map (predicted_derivative lds lis k 0) [0..<n] = replicate n 0"
  by (simp add: list_eq_iff_nth_eq)

lemma GetDocumentImportances_no_iterations:
  fixes ev :: "'a::{zero,plus,times,uminus,inverse,abs,ord} TDocumentImportancesEvaluator"
  assumes "LeavesEstimationIterations ev = 0"
    and "TreeCount ev \<le> length (TreesStatistics ev)"
    and "n \<le> length (EvaluateDerivatives (replicate n 0))"
  shows "GetDocumentImportances Sort BuildIndicesForBinTree EvaluateDerivatives ev n =
           Inr (replicate (DocCount ev)
                  (map (\<lambda>e. EvaluateDerivatives (replicate n 0) ! e * 0) [0..<n]))"
proof -
  let ?lis = "map BuildIndicesForBinTree [0..<TreeCount ev]"
  let ?ev' = "ev\<lparr>FinalFirstDerivatives := EvaluateDerivatives (replicate n 0)\<rparr>"
  have "UpdateFinalFirstDerivatives EvaluateDerivatives ev ?lis n =
          Inr (ev\<lparr>FinalFirstDerivatives :=
                   EvaluateDerivatives
                     (map (predicted_derivative (map LeafValues (TreesStatistics ev)) ?lis
                             (TreeCount ev) (LeavesEstimationIterations ev)) [0..<n])\<rparr>)"
    using assms(1) by (intro UpdateFinalFirstDerivatives_value) simp_all
  then have u: "UpdateFinalFirstDerivatives EvaluateDerivatives ev ?lis n = Inr ?ev'"
    using assms(1) by (simp add: map_predicted_derivative_no_iterations)
  have d: "UpdateLeavesDerivatives Sort ?ev' r lds = Inr lds" for r lds
  proof -
    have "tree_step Sort ?ev' r t st = Inr st" if "t \<in> set [0..<TreeCount ?ev']" for t st
      using that assms(1,2) by (simp add: tree_step_def)
    then have "loopE (tree_step Sort ?ev' r) [0..<TreeCount ?ev']
                 (replicate (DocCount ?ev') 0, lds) = Inr (replicate (DocCount ?ev') 0, lds)"
      by (rule loopE_skip)
    then show ?thesis
      by (simp add: UpdateLeavesDerivatives_def)
  qed
  have "GetDocumentImportancesForOneTrainDoc ?ev' lds ?lis (replicate n 0) =
          Inr (map (\<lambda>e. FinalFirstDerivatives ?ev' ! e
                         * predicted_derivative lds ?lis (TreeCount ?ev')
                             (LeavesEstimationIterations ?ev') e)
                 [0..<length (replicate n (0::'a))])" for lds
    using assms by (intro GetDocumentImportancesForOneTrainDoc_value) simp_all
  then have i: "GetDocumentImportancesForOneTrainDoc ?ev' lds ?lis (replicate n 0) =
          Inr (map (\<lambda>e. EvaluateDerivatives (replicate n 0) ! e * 0) [0..<n])" for lds
    using assms(1) by simp
  show ?thesis
    unfolding GetDocumentImportances_def Let_def u bindE_Inr
    by (subst mapE_const
          [where c = "map (\<lambda>e. EvaluateDerivatives (replicate n 0) ! e * 0) [0..<n]"])
      (simp_all add: d i)
qed

text \<open>
  C7. With no leaves-estimation iteration, every entry of the matrix
  \<open>GetDocumentImportances\<close> returns is the final first derivative of its column
  times zero. So when every final first derivative is finite, in the sense that
  its product with zero is zero, the matrix is the matrix of zeros, one row per
  training document and one column per document of the pool. No law of
  arithmetic is assumed beyond that hypothesis.
\<close>

theorem no_iterations_zero_matrix:
  fixes ev :: "'a::{zero,plus,times,uminus,inverse,abs,ord} TDocumentImportancesEvaluator"
  assumes "LeavesEstimationIterations ev = 0"
    and "TreeCount ev \<le> length (TreesStatistics ev)"
    and "n \<le> length (EvaluateDerivatives (replicate n 0))"
    and "\<forall>e<n. EvaluateDerivatives (replicate n 0) ! e * 0 = 0"
  shows "GetDocumentImportances Sort BuildIndicesForBinTree EvaluateDerivatives ev n =
           Inr (replicate (DocCount ev) (replicate n 0))"
proof -
  have "map (\<lambda>e. EvaluateDerivatives (replicate n 0) ! e * 0) [0..<n] = replicate n 0"
    using assms(4) by (simp add: list_eq_iff_nth_eq)
  then show ?thesis
    using GetDocumentImportances_no_iterations
        [of ev n EvaluateDerivatives Sort BuildIndicesForBinTree] assms(1-3)
    by simp
qed

theorem no_iterations_zero_matrix_witness:
  "GetDocumentImportances insertion_Sort pool_leaves finite_derivatives bare_evaluator 2 =
     Inr [[0, 0], [0, 0]]"
proof -
  have p: "finite_derivatives (replicate 2 0) = [Finite 3, Finite 3]"
    by code_simp
  have z: "Finite 3 * 0 = (0::ieee)"
    by code_simp
  have "\<forall>e<2. finite_derivatives (replicate 2 0) ! e * 0 = 0"
    unfolding p using z by (simp add: less_Suc_eq numeral_2_eq_2)
  then have "GetDocumentImportances insertion_Sort pool_leaves finite_derivatives bare_evaluator 2 =
     Inr (replicate (DocCount bare_evaluator) (replicate 2 0))"
    by (intro no_iterations_zero_matrix) (simp_all add: bare_evaluator_def p)
  also have "replicate (DocCount bare_evaluator) (replicate 2 (0::ieee)) = [[0, 0], [0, 0]]"
    by (simp add: bare_evaluator_def numeral_2_eq_2)
  finally show ?thesis .
qed

text \<open>
  Without that hypothesis the matrix need not be zero: with the derivative source
  that returns the positive infinity, the same evaluator, which has no
  leaves-estimation iteration, returns a matrix of NaN, the product of infinity
  and zero.
\<close>

theorem no_iterations_zero_matrix_counterexample:
  "LeavesEstimationIterations bare_evaluator = 0 \<and>
   GetDocumentImportances insertion_Sort pool_leaves infinite_derivatives bare_evaluator 2 =
     Inr [[NaN, NaN], [NaN, NaN]] \<and>
   NaN \<noteq> (0::ieee)"
  by code_simp


section \<open>TopKLeaves at full width\<close>

lemma leaf_derivative_value_set:
  "set sel = set sel' \<Longrightarrow>
   leaf_derivative_value ts m a dn lr r j sel = leaf_derivative_value ts m a dn lr r j sel'"
  by (intro ext) (simp add: leaf_derivative_value_def)

lemma updated_jacobian_set:
  "set sel = set sel' \<Longrightarrow> updated_jacobian ts sel r ld jac = updated_jacobian ts sel' r ld jac"
  by (intro ext) (simp add: updated_jacobian_def)

lemma wf_UpdateMethod [simp]:
  "wf_evaluator (ev\<lparr>UpdateMethod := um\<rparr>) = wf_evaluator ev"
  "nonzero_denominators (ev\<lparr>UpdateMethod := um\<rparr>) = nonzero_denominators ev"
  "wf_buckets (ev\<lparr>UpdateMethod := um\<rparr>) = wf_buckets ev"
  "loop_state (ev\<lparr>UpdateMethod := um\<rparr>) = loop_state ev"
  by (simp_all add: wf_evaluator_def nonzero_denominators_def wf_buckets_def loop_state_def
      fun_eq_iff)

lemma iteration_step_full_width:
  fixes ev :: "'a::{zero,plus,times,uminus,inverse,abs,linorder} TDocumentImportancesEvaluator"
  assumes wf: "wf_evaluator ev" and nz: "nonzero_denominators ev" and bp: "wf_buckets ev"
    and srt: "Sort_contract Sort"
    and k: "\<forall>t<TreeCount ev. LeafCount (TreesStatistics ev ! t) \<le> TopSize (UpdateMethod ev)"
    and um: "UpdateType um = AllPoints"
    and t: "t < TreeCount ev" and it: "i < LeavesEstimationIterations ev"
    and r: "r < DocCount ev" and st: "loop_state ev t i st"
  shows "iteration_step Sort ev r t (TreesStatistics ev ! t) i st =
         iteration_step Sort' (ev\<lparr>UpdateMethod := um\<rparr>) r t (TreesStatistics ev ! t) i st"
proof -
  let ?ev2 = "ev\<lparr>UpdateMethod := um\<rparr>"
  let ?ts = "TreesStatistics ev ! t"
  obtain jac lds where s: "st = (jac, lds)" by (cases st)
  have j: "length jac = DocCount ev" and shape: "t < length lds" "i < length (lds ! t)"
    using st t it unfolding s loop_state_def by simp_all
  have n: "LeafCount ?ts = 2 ^ nat (TreeSizes ev ! t)"
    using wf_evaluator_tree(1) [OF wf t] by (simp add: wf_tree_def)
  have b: "buckets_partition (DocCount ev) ?ts"
    using bp t by (simp add: wf_buckets_def)
  obtain sel1 where sel1: "GetLeafIdToUpdate Sort ev t jac = Inr sel1"
    using GetLeafIdToUpdate_defined [OF wf t j] by blast
  have "2 ^ nat (TreeSizes ev ! t) \<le> TopSize (UpdateMethod ev)"
    using k t n by (metis)
  then have s1: "set sel1 = {0..<LeafCount ?ts}"
    using GetLeafIdToUpdate_selected(4) [OF srt sel1] n by metis
  have sel2: "GetLeafIdToUpdate Sort' ?ev2 t jac = Inr [0..<LeafCount ?ts]"
    using wf_evaluator_tree [OF wf t] um n
    by (simp add: GetLeafIdToUpdate_def shl1_def wf_tree_def)
  have same: "set sel1 = set [0..<LeafCount ?ts]"
    using s1 by simp
  have v1: "iteration_step Sort ev r t ?ts i (jac, lds) =
      Inr (map (updated_jacobian ?ts sel1 r
                  (map (leaf_derivative_value ?ts (FormulaNumeratorMultiplier ?ts ! i)
                          (FormulaNumeratorAdding ?ts ! i) (FormulaDenominators ?ts ! i)
                          (LearningRate ev) r jac sel1) [0..<LeafCount ?ts]) jac)
             [0..<DocCount ev],
           lds[t := (lds ! t)[i := map (leaf_derivative_value ?ts
                          (FormulaNumeratorMultiplier ?ts ! i)
                          (FormulaNumeratorAdding ?ts ! i) (FormulaDenominators ?ts ! i)
                          (LearningRate ev) r jac sel1) [0..<LeafCount ?ts]]])"
    by (rule iteration_step_value [OF wf nz srt b t it r j shape sel1 refl])
  have srt2: "Sort_contract (insertion_Sort :: (nat \<Rightarrow> nat \<Rightarrow> bool) \<Rightarrow> nat list \<Rightarrow> nat list)"
    by (rule insertion_Sort_contract)
  have sel2': "GetLeafIdToUpdate insertion_Sort ?ev2 t jac = Inr [0..<LeafCount ?ts]"
    using wf_evaluator_tree [OF wf t] um n
    by (simp add: GetLeafIdToUpdate_def shl1_def wf_tree_def)
  have free: "iteration_step Sort' ?ev2 r t ?ts i (jac, lds) =
              iteration_step insertion_Sort ?ev2 r t ?ts i (jac, lds)"
    by (simp add: iteration_step_def sel2 sel2')
  have v2: "iteration_step insertion_Sort ?ev2 r t (TreesStatistics ?ev2 ! t) i (jac, lds) =
      Inr (map (updated_jacobian (TreesStatistics ?ev2 ! t) [0..<LeafCount ?ts] r
                  (map (leaf_derivative_value (TreesStatistics ?ev2 ! t)
                          (FormulaNumeratorMultiplier (TreesStatistics ?ev2 ! t) ! i)
                          (FormulaNumeratorAdding (TreesStatistics ?ev2 ! t) ! i)
                          (FormulaDenominators (TreesStatistics ?ev2 ! t) ! i)
                          (LearningRate ?ev2) r jac [0..<LeafCount ?ts])
                     [0..<LeafCount (TreesStatistics ?ev2 ! t)]) jac)
             [0..<DocCount ?ev2],
           lds[t := (lds ! t)[i := map (leaf_derivative_value (TreesStatistics ?ev2 ! t)
                          (FormulaNumeratorMultiplier (TreesStatistics ?ev2 ! t) ! i)
                          (FormulaNumeratorAdding (TreesStatistics ?ev2 ! t) ! i)
                          (FormulaDenominators (TreesStatistics ?ev2 ! t) ! i)
                          (LearningRate ?ev2) r jac [0..<LeafCount ?ts])
                     [0..<LeafCount (TreesStatistics ?ev2 ! t)]]])"
    using wf nz b t it r j sel2'
    by (intro iteration_step_value [OF _ _ srt2 _ _ _ _ _ shape _ refl]) simp_all
  show ?thesis
    unfolding s free v1
    using v2 by (simp add: leaf_derivative_value_set [OF same] updated_jacobian_set [OF same])
qed

lemma UpdateLeavesDerivatives_full_width:
  fixes ev :: "'a::{zero,plus,times,uminus,inverse,abs,linorder} TDocumentImportancesEvaluator"
  assumes wf: "wf_evaluator ev" and nz: "nonzero_denominators ev" and bp: "wf_buckets ev"
    and srt: "Sort_contract Sort"
    and k: "\<forall>t<TreeCount ev. LeafCount (TreesStatistics ev ! t) \<le> TopSize (UpdateMethod ev)"
    and um: "UpdateType um = AllPoints"
    and r: "r < DocCount ev"
    and shape: "length lds = TreeCount ev"
      "\<forall>t<TreeCount ev. length (lds ! t) = LeavesEstimationIterations ev"
  shows "UpdateLeavesDerivatives Sort ev r lds =
         UpdateLeavesDerivatives Sort' (ev\<lparr>UpdateMethod := um\<rparr>) r lds"
proof -
  let ?ev2 = "ev\<lparr>UpdateMethod := um\<rparr>"
  have tree: "tree_step Sort ev r t st = tree_step Sort' ?ev2 r t st"
    if t: "t < TreeCount ev" and st: "loop_state ev t 0 st" for t st
  proof -
    have "loopE (iteration_step Sort ev r t (TreesStatistics ev ! t))
            [0..<LeavesEstimationIterations ev] st =
          loopE (iteration_step Sort' ?ev2 r t (TreesStatistics ev ! t))
            [0..<LeavesEstimationIterations ev] st \<and>
          (\<forall>s'. loopE (iteration_step Sort ev r t (TreesStatistics ev ! t))
                   [0..<LeavesEstimationIterations ev] st = Inr s' \<longrightarrow>
                loop_state ev t (LeavesEstimationIterations ev) s')"
    proof (rule loopE_upt_cong [where I = "loop_state ev t"])
      show "loop_state ev t 0 st" by (rule st)
    next
      fix i s assume "i < LeavesEstimationIterations ev" "loop_state ev t i s"
      then show "iteration_step Sort ev r t (TreesStatistics ev ! t) i s =
                 iteration_step Sort' ?ev2 r t (TreesStatistics ev ! t) i s"
        by (intro iteration_step_full_width [OF wf nz bp srt k um t _ r])
    next
      fix i s s' assume "i < LeavesEstimationIterations ev" "loop_state ev t i s"
        "iteration_step Sort ev r t (TreesStatistics ev ! t) i s = Inr s'"
      then show "loop_state ev t (Suc i) s'"
        using iteration_step_defined [OF wf nz srt bp t _ r, of i s] by auto
    qed
    then show ?thesis
      using wf_evaluator_tree(2) [OF wf t] by (simp add: tree_step_def)
  qed
  have "loopE (tree_step Sort ev r) [0..<TreeCount ev] (replicate (DocCount ev) 0, lds) =
        loopE (tree_step Sort' ?ev2 r) [0..<TreeCount ev] (replicate (DocCount ev) 0, lds) \<and>
        (\<forall>s'. loopE (tree_step Sort ev r) [0..<TreeCount ev] (replicate (DocCount ev) 0, lds) =
                 Inr s' \<longrightarrow> loop_state ev (TreeCount ev) 0 s')"
  proof (rule loopE_upt_cong [where I = "\<lambda>t. loop_state ev t 0"])
    show "loop_state ev 0 0 (replicate (DocCount ev) 0, lds)"
      using shape by (simp add: loop_state_def)
  next
    fix t s assume "t < TreeCount ev" "loop_state ev t 0 s"
    then show "tree_step Sort ev r t s = tree_step Sort' ?ev2 r t s"
      by (rule tree)
  next
    fix t s s' assume "t < TreeCount ev" "loop_state ev t 0 s" "tree_step Sort ev r t s = Inr s'"
    then show "loop_state ev (Suc t) 0 s'"
      using tree_step_defined [OF wf nz srt bp _ r, of t s] by auto
  qed
  then show ?thesis
    by (simp add: UpdateLeavesDerivatives_def)
qed

lemma UpdateFinalFirstDerivatives_UpdateMethod:
  "UpdateFinalFirstDerivatives E (ev\<lparr>UpdateMethod := um\<rparr>) lis n =
     bindE (UpdateFinalFirstDerivatives E ev lis n) (\<lambda>ev'. Inr (ev'\<lparr>UpdateMethod := um\<rparr>))"
  by (cases "loopE (predicted_tree_step (map LeafValues (TreesStatistics ev)) lis
                      (LeavesEstimationIterations ev) n) [0..<TreeCount ev] (replicate n 0)")
    (simp_all add: UpdateFinalFirstDerivatives_def approx_tree_step_eq)

lemma UpdateFinalFirstDerivatives_Inr:
  "UpdateFinalFirstDerivatives E ev lis n = Inr ev' \<Longrightarrow> \<exists>x. ev' = ev\<lparr>FinalFirstDerivatives := x\<rparr>"
  by (auto simp: UpdateFinalFirstDerivatives_def bindE_eq_Inr)

lemma GetDocumentImportancesForOneTrainDoc_UpdateMethod:
  "GetDocumentImportancesForOneTrainDoc (ev\<lparr>UpdateMethod := um\<rparr>) =
   GetDocumentImportancesForOneTrainDoc ev"
  by (intro ext) (simp add: GetDocumentImportancesForOneTrainDoc_def)

text \<open>
  C6. On well-formed input, the evaluation under \<^verbatim>\<open>TopKLeaves\<close> with a \<^verbatim>\<open>TopSize\<close> that
  is at least (in particular: equal to) the leaf count of every tree returns what
  the evaluation under \<^verbatim>\<open>AllPoints\<close> returns. The number type carries no law of
  arithmetic, so the two matrices are equal operation by operation, not up to
  rounding.
\<close>

theorem full_width_top_k_is_all_points:
  fixes ev :: "'a::{zero,plus,times,uminus,inverse,abs,linorder} TDocumentImportancesEvaluator"
  assumes "wf_evaluator ev" and "nonzero_denominators ev" and "wf_buckets ev"
    and "Sort_contract Sort"
    and "UpdateType (UpdateMethod ev) = TopKLeaves"
    and "\<forall>t<TreeCount ev. LeafCount (TreesStatistics ev ! t) \<le> TopSize (UpdateMethod ev)"
    and "UpdateType um = AllPoints"
  shows "GetDocumentImportances Sort BuildIndicesForBinTree EvaluateDerivatives ev n =
         GetDocumentImportances Sort' BuildIndicesForBinTree EvaluateDerivatives
           (ev\<lparr>UpdateMethod := um\<rparr>) n"
proof (cases "UpdateFinalFirstDerivatives EvaluateDerivatives ev
                (map BuildIndicesForBinTree [0..<TreeCount ev]) n")
  case (Inl e)
  then show ?thesis
    by (simp add: GetDocumentImportances_def UpdateFinalFirstDerivatives_UpdateMethod)
next
  case (Inr ev')
  then obtain x where ev': "ev' = ev\<lparr>FinalFirstDerivatives := x\<rparr>"
    using UpdateFinalFirstDerivatives_Inr by blast
  let ?lis = "map BuildIndicesForBinTree [0..<TreeCount ev]"
  let ?ld0 = "replicate (TreeCount ev) (replicate (LeavesEstimationIterations ev) ([]::'a list))"
  have wf': "wf_evaluator ev'" "nonzero_denominators ev'" "wf_buckets ev'"
    "\<forall>t<TreeCount ev'. LeafCount (TreesStatistics ev' ! t) \<le> TopSize (UpdateMethod ev')"
    using assms(1-3,6) by (simp_all add: ev')
  have "UpdateLeavesDerivatives Sort ev' r ?ld0 =
        UpdateLeavesDerivatives Sort' (ev'\<lparr>UpdateMethod := um\<rparr>) r ?ld0"
    if "r < DocCount ev" for r
    using that
    by (intro UpdateLeavesDerivatives_full_width [OF wf'(1-3) assms(4) wf'(4) assms(7)])
      (simp_all add: ev')
  then have "mapE (\<lambda>docId.
                bindE (UpdateLeavesDerivatives Sort ev' docId ?ld0)
                  (\<lambda>leafDerivatives.
                     GetDocumentImportancesForOneTrainDoc ev' leafDerivatives ?lis
                       (replicate n 0))) [0..<DocCount ev] =
             mapE (\<lambda>docId.
                bindE (UpdateLeavesDerivatives Sort' (ev'\<lparr>UpdateMethod := um\<rparr>) docId ?ld0)
                  (\<lambda>leafDerivatives.
                     GetDocumentImportancesForOneTrainDoc (ev'\<lparr>UpdateMethod := um\<rparr>)
                       leafDerivatives ?lis (replicate n 0))) [0..<DocCount ev]"
    by (intro mapE_cong) (simp add: GetDocumentImportancesForOneTrainDoc_UpdateMethod)
  then show ?thesis
    using Inr
    by (simp add: GetDocumentImportances_def UpdateFinalFirstDerivatives_UpdateMethod ev')
qed

theorem full_width_top_k_is_all_points_witness:
  "GetDocumentImportances insertion_Sort (\<lambda>t. [0, 1]) (map (\<lambda>x. x + 1))
     (example_evaluator\<lparr>UpdateMethod := \<lparr>UpdateType = TopKLeaves, TopSize = 2\<rparr>\<rparr>) 2 =
   GetDocumentImportances insertion_Sort (\<lambda>t. [0, 1]) (map (\<lambda>x. x + 1))
     (example_evaluator\<lparr>UpdateMethod := \<lparr>UpdateType = AllPoints, TopSize = 0\<rparr>\<rparr>) 2 \<and>
   GetDocumentImportances insertion_Sort (\<lambda>t. [0, 1]) (map (\<lambda>x. x + 1))
     (example_evaluator\<lparr>UpdateMethod := \<lparr>UpdateType = AllPoints, TopSize = 0\<rparr>\<rparr>) 2 =
     Inr [[- (21 / 2), 0], [0, 0], [0, 0]]"
proof -
  let ?ev = "example_evaluator\<lparr>UpdateMethod := \<lparr>UpdateType = TopKLeaves, TopSize = 2\<rparr>\<rparr>"
  have k: "\<forall>t<TreeCount ?ev. LeafCount (TreesStatistics ?ev ! t) \<le> TopSize (UpdateMethod ?ev)"
    by (simp add: example_evaluator_def example_tree_def less_Suc_eq numeral_2_eq_2)
  have "GetDocumentImportances insertion_Sort (\<lambda>t. [0, 1]) (map (\<lambda>x. x + 1)) ?ev 2 =
        GetDocumentImportances insertion_Sort (\<lambda>t. [0, 1]) (map (\<lambda>x. x + 1))
          (?ev\<lparr>UpdateMethod := \<lparr>UpdateType = AllPoints, TopSize = 0\<rparr>\<rparr>) 2"
    using example_wf example_nonzero example_wf_buckets k
    by (intro full_width_top_k_is_all_points [OF _ _ _ insertion_Sort_contract]) simp_all
  moreover have "GetDocumentImportances insertion_Sort (\<lambda>t. [0, 1]) (map (\<lambda>x. x + 1))
     (example_evaluator\<lparr>UpdateMethod := \<lparr>UpdateType = AllPoints, TopSize = 0\<rparr>\<rparr>) 2 =
     Inr [[- (21 / 2), 0], [0, 0], [0, 0]]"
    by code_simp
  ultimately show ?thesis by simp
qed

end
